theory Spec2Isabelle
  imports Main
begin

text \<open>
  The package \<open>lode\<close> binds groups of models to a shared \<open>loaderState\<close> and memoizes one
  builder per state and cache key. The source tree holds the package twice. The definitions
  follow the copy that has \<open>toPtrSlice\<close>, \<open>bindPtrSlice\<close>, \<open>Handle.Reset\<close> and the \<open>isNil\<close>
  guards, which is the one the tests of \<open>InitHandles\<close>, \<open>Reset\<close> and nil models belong to; of
  the other copy, the file \<open>lode.go\<close>, \<open>Resolve\<close> is taken up in a section of its own. Calls
  run one after the other: \<open>sync.Once\<close> and \<open>sync.Map\<close> are read as their sequential
  contracts. The \<open>context.Context\<close> is left out, the package only passes it on.
\<close>

section \<open>Machine integers\<close>

text \<open>
  Go's \<open>int\<close> is taken at 64 bits (amd64, arm64): \<open>+\<close> and \<open>-\<close> wrap around in two's
  complement, \<open>/\<close> truncates toward zero and panics on a zero divisor.
\<close>

definition wrap64 :: "int \<Rightarrow> int" where
  "wrap64 x = (x + 2 ^ 63) mod 2 ^ 64 - 2 ^ 63"

definition go_quot :: "int \<Rightarrow> int \<Rightarrow> int" where
  "go_quot a b = wrap64 (sgn a * sgn b * (\<bar>a\<bar> div \<bar>b\<bar>))"

datatype 'a outcome = Done 'a | Panic | Diverge

datatype ('a, 's) res = Returns 'a 's | Panics 's | Diverges

section \<open>batchRanges\<close>

record rangeIndex =
  StartInclusive :: int
  EndExclusive :: int

text \<open>
  The loop \<open>for i := 0; i < n; i += batchSize\<close> of \<open>batchRanges\<close>. With a batch size
  that is not positive the counter need not reach \<open>n\<close>, so the loop is a partial function:
  \<open>None\<close> stands for a run that never leaves the loop.
\<close>

partial_function (option) batchLoop ::
  "int \<Rightarrow> int \<Rightarrow> int \<Rightarrow> rangeIndex list \<Rightarrow> rangeIndex list option" where
  "batchLoop n bs i out =
     (if i < n
      then batchLoop n bs (wrap64 (i + bs))
             (out @ [\<lparr>StartInclusive = i,
                      EndExclusive = (if wrap64 (i + bs) > n then n else wrap64 (i + bs))\<rparr>])
      else Some out)"

declare batchLoop.simps [code]

text \<open>
  \<open>batchRanges(n, batchSize)\<close>: \<open>nb\<close> is only the capacity of the result, but computing it
  divides by \<open>batchSize\<close>, and \<open>make\<close> panics on a negative capacity.
\<close>

definition batchRanges :: "int \<Rightarrow> int \<Rightarrow> rangeIndex list outcome" where
  "batchRanges n bs =
     (if n = 0 then Done []
      else if bs = 0 then Panic
      else if go_quot (wrap64 (wrap64 (n + bs) - 1)) bs < 0 then Panic
      else (case batchLoop n bs 0 [] of None \<Rightarrow> Diverge | Some out \<Rightarrow> Done out))"

section \<open>Engine, Handle, loaderState\<close>

type_synonym addr = nat
type_synonym sid = nat
type_synonym eid = nat
type_synonym tyname = string

text \<open>
  A model is a struct that embeds a \<open>Handle\<close>; \<open>addr\<close> is the address of such a struct and
  \<open>mref\<close> a pointer to it (\<open>None\<close> is the nil pointer). \<open>sid\<close> is the address of a
  \<open>loaderState\<close>, \<open>eid\<close> the address of a \<open>resolverEntry\<close>. Types that the code compares at
  run time (type assertions, reflection) are carried as names.
\<close>

type_synonym mref = "addr option"

record Config =
  batchSize :: int

record Engine =
  config :: Config

definition NewEngine :: "(Config \<Rightarrow> Config) list \<Rightarrow> Engine" where
  "NewEngine opts = \<lparr>config = fold (\<lambda>opt c. opt c) opts \<lparr>batchSize = 5000\<rparr>\<rparr>"

definition WithBatchSize :: "int \<Rightarrow> Config \<Rightarrow> Config" where
  "WithBatchSize b c = c\<lparr>batchSize := b\<rparr>"

datatype 'e error =
    ErrNoLoader
  | ErrNotStored
  | ErrIncompatible string
  | ErrModels tyname
  | Upstream 'e

text \<open>
  \<open>resolverHolder.resolver\<close> is an \<open>any\<close> that holds a \<open>ResolverFunc[Model, Result]\<close>:
  the value remembers both type arguments, and the function itself may be nil.
\<close>

datatype 'v resolverAny = ResolverFunc tyname tyname "(mref \<Rightarrow> 'v) option"

record ('v, 'e) resolverHolder =
  resolver :: "'v resolverAny option"
  err :: "'e error option"

record ('v, 'e) resolverEntry =
  once :: bool
  ready :: "('v, 'e) resolverHolder option"

record loaderState =
  models :: "mref list"
  modelsType :: tyname
  engine :: Engine
  resolverEntries :: "string \<Rightarrow> eid option"

text \<open>
  The store. \<open>core\<close> is the \<open>Handle.core\<close> field of the model at each address;
  \<open>loaderStates\<close> and \<open>entriesAt\<close> hold the allocated states and entries, \<open>nextState\<close> and
  \<open>nextEntry\<close> are the next free addresses. \<open>buildLog\<close> is a history variable: one item
  for every evaluation of \<open>spec.Build(ctx, models)\<close> in \<open>Resolve\<close>.
\<close>

record ('v, 'e) heap =
  core :: "addr \<Rightarrow> sid option"
  loaderStates :: "sid \<Rightarrow> loaderState"
  nextState :: sid
  entriesAt :: "eid \<Rightarrow> ('v, 'e) resolverEntry"
  nextEntry :: eid
  buildLog :: "(sid \<times> string) list"

text \<open>\<open>Handle.Reset\<close>; the receiver is the handle embedded in the model the pointer names.\<close>

definition Reset :: "('v, 'e) heap \<Rightarrow> mref \<Rightarrow> (unit, ('v, 'e) heap) res" where
  "Reset s h =
     (case h of
        None \<Rightarrow> Panics s
      | Some a \<Rightarrow>
          (case core s a of
             None \<Rightarrow> Returns () s
           | Some st \<Rightarrow>
               Returns ()
                 (s\<lparr>loaderStates := (loaderStates s)
                      (st := (loaderStates s st)\<lparr>resolverEntries := (\<lambda>k. None)\<rparr>)\<rparr>)))"

section \<open>InitHandles\<close>

text \<open>
  The shapes of the \<open>models any\<close> argument that the reflection in \<open>toPtrSlice\<close> tells apart:
  \<^item> \<open>NilInterface\<close>: the nil interface value;
  \<^item> \<open>ModelPtr ty r\<close>: a pointer of a type \<open>ty\<close> that implements \<open>hasState\<close> (\<open>*T\<close> for a struct
    \<open>T\<close> that embeds \<open>Handle\<close>), nil or to the model at an address;
  \<^item> \<open>PtrSlice named ty xs\<close>: a slice of such pointers, of a named or an unnamed slice
    type;
  \<^item> \<open>ValSlice named ty slots\<close>: a slice of model structs of type \<open>ty\<close>, given by the
    addresses of its element slots (slice elements are addressable);
  \<^item> \<open>OtherSlice n\<close>: a slice of \<open>n\<close> elements that neither are nor point to models;
  \<^item> \<open>OtherValue\<close>: a value of any other kind (a number, a struct passed by value, an
    array, a map, a function);
  \<^item> \<open>NilPtr\<close> and \<open>PtrTo v\<close>: a nil pointer and a pointer to \<open>v\<close>, of a pointer type that
    does not implement \<open>hasState\<close>; so \<open>PtrTo (ModelPtr ty r)\<close> is a \<open>**T\<close>.
\<close>

datatype anyval =
    NilInterface
  | ModelPtr tyname mref
  | PtrSlice bool tyname "mref list"
  | ValSlice bool tyname "addr list"
  | OtherSlice nat
  | OtherValue
  | NilPtr
  | PtrTo anyval

text \<open>
  The normalized slice of pointers: the name of its element type, whether that type
  implements \<open>hasState\<close> (the type assertion in both loops of \<open>bindPtrSlice\<close>), and the
  elements.
\<close>

record ptrSlice =
  elemType :: tyname
  implements :: bool
  elems :: "mref list"

text \<open>
  The loop \<open>for v.Kind() == reflect.Ptr\<close>: \<open>None\<close> when it meets a nil pointer. Below a
  pointer, a pointer to a model is unwrapped like any other, down to the struct.
\<close>

fun unwrapPtrs :: "anyval \<Rightarrow> anyval option" where
  "unwrapPtrs NilPtr = None"
| "unwrapPtrs (PtrTo v) = unwrapPtrs v"
| "unwrapPtrs (ModelPtr ty None) = None"
| "unwrapPtrs (ModelPtr ty (Some a)) = Some OtherValue"
| "unwrapPtrs v = Some v"

definition toPtrSlice :: "anyval \<Rightarrow> ptrSlice option" where
  "toPtrSlice m =
     (case m of
        NilInterface \<Rightarrow> None
      | ModelPtr ty None \<Rightarrow> None
      | ModelPtr ty (Some a) \<Rightarrow> Some \<lparr>elemType = ty, implements = True, elems = [Some a]\<rparr>
      | _ \<Rightarrow>
          (case unwrapPtrs m of
             None \<Rightarrow> None
           | Some (PtrSlice named ty xs) \<Rightarrow>
               Some \<lparr>elemType = ty, implements = True,
                     elems = (if named
                              then map (\<lambda>vi. case vi of None \<Rightarrow> None | Some a \<Rightarrow> Some a) xs
                              else xs)\<rparr>
           | Some (ValSlice named ty slots) \<Rightarrow>
               Some \<lparr>elemType = CHR ''*'' # ty, implements = True, elems = map Some slots\<rparr>
           | Some (OtherSlice n) \<Rightarrow>
               Some \<lparr>elemType = [], implements = False, elems = replicate n None\<rparr>
           | Some _ \<Rightarrow> None))"

text \<open>The first loop of \<open>bindPtrSlice\<close>: is a (re)bind needed?\<close>

fun needScan :: "(addr \<Rightarrow> sid option) \<Rightarrow> sid option \<Rightarrow> mref list \<Rightarrow> bool" where
  "needScan c first [] = False"
| "needScan c first (None # xs) = needScan c first xs"
| "needScan c first (Some a # xs) =
     (case c a of
        None \<Rightarrow> True
      | Some st \<Rightarrow>
          (case first of
             None \<Rightarrow> needScan c (Some st) xs
           | Some f \<Rightarrow> if f \<noteq> st then True else needScan c first xs))"

text \<open>The inner loop: \<open>setLodeState(state)\<close> on every non-nil element of the chunk.\<close>

fun setStates :: "sid \<Rightarrow> mref list \<Rightarrow> (addr \<Rightarrow> sid option) \<Rightarrow> (addr \<Rightarrow> sid option)" where
  "setStates st [] c = c"
| "setStates st (None # xs) c = setStates st xs c"
| "setStates st (Some a # xs) c = setStates st xs (c(a := Some st))"

definition subSlice :: "'a list \<Rightarrow> rangeIndex \<Rightarrow> 'a list" where
  "subSlice xs br =
     take (nat (EndExclusive br - StartInclusive br)) (drop (nat (StartInclusive br)) xs)"

text \<open>
  The body of the second loop of \<open>bindPtrSlice\<close> for one range: a new \<open>loaderState\<close>
  that records the chunk, and every non-nil element of the chunk pointed at it.
\<close>

definition bindBatch ::
  "Engine \<Rightarrow> ptrSlice \<Rightarrow> rangeIndex \<Rightarrow> ('v, 'e) heap \<Rightarrow> ('v, 'e) heap" where
  "bindBatch e ps br s =
     s\<lparr>loaderStates := (loaderStates s)
          (nextState s := \<lparr>models = subSlice (elems ps) br, modelsType = elemType ps,
                           engine = e, resolverEntries = (\<lambda>k. None)\<rparr>),
       nextState := Suc (nextState s),
       core := (if implements ps
                then setStates (nextState s) (subSlice (elems ps) br) (core s)
                else core s)\<rparr>"

text \<open>
  The loop over the ranges. \<open>ps.Slice(i, j)\<close> panics on bounds that are out of order or
  out of range.
\<close>

fun bindBatches ::
  "Engine \<Rightarrow> ptrSlice \<Rightarrow> rangeIndex list \<Rightarrow> ('v, 'e) heap \<Rightarrow> (unit, ('v, 'e) heap) res" where
  "bindBatches e ps [] s = Returns () s"
| "bindBatches e ps (br # brs) s =
     (if 0 \<le> StartInclusive br \<and> StartInclusive br \<le> EndExclusive br
         \<and> EndExclusive br \<le> int (length (elems ps))
      then bindBatches e ps brs (bindBatch e ps br s)
      else Panics s)"

definition bindPtrSlice ::
  "Engine \<Rightarrow> ('v, 'e) heap \<Rightarrow> ptrSlice \<Rightarrow> (unit, ('v, 'e) heap) res" where
  "bindPtrSlice e s ps =
     (if implements ps \<and> needScan (core s) None (elems ps)
      then (case batchRanges (int (length (elems ps))) (batchSize (config e)) of
              Done brs \<Rightarrow> bindBatches e ps brs s
            | Panic \<Rightarrow> Panics s
            | Diverge \<Rightarrow> Diverges)
      else Returns () s)"

definition InitHandles ::
  "Engine \<Rightarrow> ('v, 'e) heap \<Rightarrow> anyval \<Rightarrow> (unit, ('v, 'e) heap) res" where
  "InitHandles e s m =
     (if m = NilInterface then Returns () s
      else (case toPtrSlice m of
              None \<Rightarrow> Returns () s
            | Some ps \<Rightarrow> if length (elems ps) = 0 then Returns () s else bindPtrSlice e s ps))"

section \<open>Resolve\<close>

text \<open>
  \<open>ResolveSpec[Model, Result]\<close>. The type arguments are part of the value: \<open>ModelType\<close> and
  \<open>ResultType\<close> name them, \<open>ResultZero\<close> is the zero value of \<open>Result\<close>. \<open>Build\<close> is code of
  the caller: it may change the store (bind what it loaded, resolve other keys), and it
  may panic or not return.
\<close>

record ('v, 'e) ResolveSpec =
  CacheKey :: string
  Model :: mref
  Build :: "('v, 'e) heap \<Rightarrow> mref list
             \<Rightarrow> ((mref \<Rightarrow> 'v) option \<times> 'e error option, ('v, 'e) heap) res"
  ModelType :: tyname
  ResultType :: tyname
  ResultZero :: 'v

definition applyResolver ::
  "tyname \<Rightarrow> tyname \<Rightarrow> 'v \<Rightarrow> ('v, 'e) resolverHolder option \<Rightarrow> string \<Rightarrow> mref
     \<Rightarrow> ('v, 'e) heap \<Rightarrow> ('v \<times> 'e error option, ('v, 'e) heap) res" where
  "applyResolver mty rty zero h cacheKey model s =
     (case h of
        None \<Rightarrow> Returns (zero, Some ErrNotStored) s
      | Some holder \<Rightarrow>
          (case err holder of
             Some e \<Rightarrow> Returns (zero, Some e) s
           | None \<Rightarrow>
               (case resolver holder of
                  None \<Rightarrow> Returns (zero, Some (ErrIncompatible cacheKey)) s
                | Some (ResolverFunc mty' rty' fn) \<Rightarrow>
                    if mty' = mty \<and> rty' = rty
                    then (case fn of
                            None \<Rightarrow> Panics s
                          | Some f \<Rightarrow> Returns (f model, None) s)
                    else Returns (zero, Some (ErrIncompatible cacheKey)) s)))"

text \<open>\<open>resolverEntries.LoadOrStore(key, &resolverEntry{})\<close> of \<open>sync.Map\<close>.\<close>

definition LoadOrStore :: "('v, 'e) heap \<Rightarrow> sid \<Rightarrow> string \<Rightarrow> eid \<times> ('v, 'e) heap" where
  "LoadOrStore s loader key =
     (case resolverEntries (loaderStates s loader) key of
        Some pm \<Rightarrow> (pm, s)
      | None \<Rightarrow>
          (nextEntry s,
           s\<lparr>entriesAt := (entriesAt s)(nextEntry s := \<lparr>once = False, ready = None\<rparr>),
             nextEntry := Suc (nextEntry s),
             loaderStates := (loaderStates s)
               (loader := (loaderStates s loader)
                  \<lparr>resolverEntries :=
                     (resolverEntries (loaderStates s loader))(key := Some (nextEntry s))\<rparr>)\<rparr>))"

text \<open>
  \<open>pm.once.Do(func() {...})\<close>: the function runs unless the \<open>Once\<close> is done, and the
  \<open>Once\<close> is done afterwards, also when the function panics.
\<close>

definition onceDo ::
  "('v, 'e) heap \<Rightarrow> sid \<Rightarrow> eid \<Rightarrow> ('v, 'e) ResolveSpec \<Rightarrow> (unit, ('v, 'e) heap) res" where
  "onceDo s loader pm spec =
     (if once (entriesAt s pm) then Returns () s
      else if modelsType (loaderStates s loader) \<noteq> ModelType spec
      then Returns ()
             (s\<lparr>entriesAt := (entriesAt s)
                  (pm := (entriesAt s pm)
                     \<lparr>ready := Some \<lparr>resolver = None, err = Some (ErrModels (ModelType spec))\<rparr>,
                      once := True\<rparr>)\<rparr>)
      else (case Build spec (s\<lparr>buildLog := buildLog s @ [(loader, CacheKey spec)]\<rparr>)
                   (models (loaderStates s loader)) of
              Returns (fn, e) s' \<Rightarrow>
                Returns ()
                  (s'\<lparr>entriesAt := (entriesAt s')
                       (pm := (entriesAt s' pm)
                          \<lparr>ready := Some \<lparr>resolver =
                                            Some (ResolverFunc (ModelType spec) (ResultType spec) fn),
                                          err = e\<rparr>,
                           once := True\<rparr>)\<rparr>)
            | Panics s' \<Rightarrow>
                Panics (s'\<lparr>entriesAt := (entriesAt s')(pm := (entriesAt s' pm)\<lparr>once := True\<rparr>)\<rparr>)
            | Diverges \<Rightarrow> Diverges))"

definition Resolve ::
  "('v, 'e) heap \<Rightarrow> ('v, 'e) ResolveSpec \<Rightarrow> ('v \<times> 'e error option, ('v, 'e) heap) res" where
  "Resolve s spec =
     (case Model spec of
        None \<Rightarrow> Returns (ResultZero spec, None) s
      | Some a \<Rightarrow>
          (case core s a of
             None \<Rightarrow> Returns (ResultZero spec, Some ErrNoLoader) s
           | Some loader \<Rightarrow>
               (case LoadOrStore s loader (CacheKey spec) of
                  (pm, s1) \<Rightarrow>
                    (case ready (entriesAt s1 pm) of
                       Some h \<Rightarrow>
                         applyResolver (ModelType spec) (ResultType spec) (ResultZero spec)
                           (Some h) (CacheKey spec) (Model spec) s1
                     | None \<Rightarrow>
                         (case onceDo s1 loader pm spec of
                            Returns u s2 \<Rightarrow>
                              applyResolver (ModelType spec) (ResultType spec) (ResultZero spec)
                                (ready (entriesAt s2 pm)) (CacheKey spec) (Model spec) s2
                          | Panics s2 \<Rightarrow> Panics s2
                          | Diverges \<Rightarrow> Diverges)))))"

section \<open>Many and One\<close>

text \<open>
  \<open>RelationSpec[JoinKey, Model, Relation]\<close>. \<open>ModelKey\<close> returns \<open>None\<close> for \<open>ok = false\<close>.
  \<open>Fetch\<close> is code of the caller and may change the store. The type arguments:
  \<open>ParentType\<close> and \<open>RelationType\<close> name \<open>Model\<close> and \<open>Relation\<close>, \<open>RelationZero\<close> is the zero
  value of \<open>Relation\<close>, and \<open>RelationsAny\<close> is the fetched \<open>[]Relation\<close> as the \<open>any\<close> that
  \<open>InitHandles\<close> inspects.
\<close>

record ('k, 'r, 'e) RelationSpec =
  RelCacheKey :: string
  Parent :: mref
  ModelKey :: "mref \<Rightarrow> 'k option"
  RelationKey :: "'r \<Rightarrow> 'k"
  Fetch :: "('r list, 'e) heap \<Rightarrow> 'k list
             \<Rightarrow> ('r list \<times> 'e error option) \<times> ('r list, 'e) heap"
  ParentType :: tyname
  RelationType :: tyname
  RelationZero :: 'r
  RelationsAny :: "'r list \<Rightarrow> anyval"

text \<open>The loop that fills \<open>grouped\<close>; a key that is absent from the Go map reads as nil.\<close>

definition grouped :: "('r \<Rightarrow> 'k) \<Rightarrow> 'r list \<Rightarrow> 'k \<Rightarrow> 'r list" where
  "grouped relationKey relations =
     foldl (\<lambda>g relation. g(relationKey relation := g (relationKey relation) @ [relation]))
       (\<lambda>k. []) relations"

text \<open>
  The closure \<open>queryFunc\<close> of \<open>Many\<close>, with the \<open>loader\<close> it captures. The keys reach
  \<open>Fetch\<close> in the iteration order of a Go map, which is any order: \<open>ord\<close>.
\<close>

definition queryFunc ::
  "('k list \<Rightarrow> 'k list) \<Rightarrow> ('k, 'r, 'e) RelationSpec \<Rightarrow> sid \<Rightarrow> ('r list, 'e) heap \<Rightarrow> mref list
     \<Rightarrow> ((mref \<Rightarrow> 'r list) option \<times> 'e error option, ('r list, 'e) heap) res" where
  "queryFunc ord args loader s ms =
     (case Fetch args s (ord (remdups (List.map_filter (ModelKey args) ms))) of
        ((relations, ferr), s1) \<Rightarrow>
          (case ferr of
             Some e \<Rightarrow> Returns (None, Some e) s1
           | None \<Rightarrow>
               (case InitHandles (engine (loaderStates s1 loader)) s1 (RelationsAny args relations) of
                  Returns u s2 \<Rightarrow>
                    Returns
                      (Some (\<lambda>m. case ModelKey args m of
                                   Some key \<Rightarrow> grouped (RelationKey args) relations key
                                 | None \<Rightarrow> []),
                       None) s2
                | Panics s2 \<Rightarrow> Panics s2
                | Diverges \<Rightarrow> Diverges)))"

definition Many ::
  "('k list \<Rightarrow> 'k list) \<Rightarrow> ('r list, 'e) heap \<Rightarrow> ('k, 'r, 'e) RelationSpec
     \<Rightarrow> ('r list \<times> 'e error option, ('r list, 'e) heap) res" where
  "Many ord s args =
     (case Parent args of
        None \<Rightarrow> Returns ([], None) s
      | Some a \<Rightarrow>
          (case ModelKey args (Parent args) of
             None \<Rightarrow> Returns ([], None) s
           | Some k \<Rightarrow>
               (case core s a of
                  None \<Rightarrow> Returns ([], Some ErrNoLoader) s
                | Some loader \<Rightarrow>
                    (case Resolve s
                            \<lparr>CacheKey = RelCacheKey args, Model = Parent args,
                             Build = queryFunc ord args loader,
                             ModelType = ParentType args,
                             ResultType = CHR ''['' # CHR '']'' # RelationType args,
                             ResultZero = []\<rparr> of
                       Returns (result, e) s' \<Rightarrow>
                         (case e of
                            Some x \<Rightarrow> Returns ([], Some x) s'
                          | None \<Rightarrow> Returns (result, None) s')
                     | Panics s' \<Rightarrow> Panics s'
                     | Diverges \<Rightarrow> Diverges))))"

definition One ::
  "('k list \<Rightarrow> 'k list) \<Rightarrow> ('r list, 'e) heap \<Rightarrow> ('k, 'r, 'e) RelationSpec
     \<Rightarrow> ('r \<times> 'e error option, ('r list, 'e) heap) res" where
  "One ord s args =
     (case Many ord s args of
        Returns (relations, e) s' \<Rightarrow>
          (case e of
             Some x \<Rightarrow> Returns (RelationZero args, Some x) s'
           | None \<Rightarrow>
               (case relations of
                  [] \<Rightarrow> Returns (RelationZero args, None) s'
                | r # rs \<Rightarrow> Returns (r, None) s'))
      | Panics s' \<Rightarrow> Panics s'
      | Diverges \<Rightarrow> Diverges)"

section \<open>Resolve in the file lode.go\<close>

text \<open>
  The source tree holds the package twice. The file \<open>lode.go\<close> has the same \<open>applyResolver\<close>,
  entry map and \<open>once.Do\<close>, but its \<open>Resolve\<close> has no \<open>isNil\<close> test: the first thing it
  evaluates is \<open>spec.Model.lodeState()\<close>, which dereferences the model, so a nil model is
  a nil pointer dereference. (\<open>Many\<close> of that file likewise starts with
  \<open>args.ModelKey(args.Model)\<close> and \<open>args.Model.lodeState()\<close>.)
\<close>

definition Resolve_lode_go ::
  "('v, 'e) heap \<Rightarrow> ('v, 'e) ResolveSpec \<Rightarrow> ('v \<times> 'e error option, ('v, 'e) heap) res" where
  "Resolve_lode_go s spec =
     (case Model spec of
        None \<Rightarrow> Panics s
      | Some a \<Rightarrow>
          (case core s a of
             None \<Rightarrow> Returns (ResultZero spec, Some ErrNoLoader) s
           | Some loader \<Rightarrow>
               (case LoadOrStore s loader (CacheKey spec) of
                  (pm, s1) \<Rightarrow>
                    (case ready (entriesAt s1 pm) of
                       Some h \<Rightarrow>
                         applyResolver (ModelType spec) (ResultType spec) (ResultZero spec)
                           (Some h) (CacheKey spec) (Model spec) s1
                     | None \<Rightarrow>
                         (case onceDo s1 loader pm spec of
                            Returns u s2 \<Rightarrow>
                              applyResolver (ModelType spec) (ResultType spec) (ResultZero spec)
                                (ready (entriesAt s2 pm)) (CacheKey spec) (Model spec) s2
                          | Panics s2 \<Rightarrow> Panics s2
                          | Diverges \<Rightarrow> Diverges)))))"

section \<open>Notions used in the statements\<close>

text \<open>
  The ranges \<open>batchRanges n b\<close> is meant to return: \<open>numChunks n b\<close> ranges, the \<open>k\<close>-th from
  \<open>k * b\<close> to \<open>min (k * b + b) n\<close>.
\<close>

definition chunkAt :: "int \<Rightarrow> int \<Rightarrow> nat \<Rightarrow> rangeIndex" where
  "chunkAt n b k = \<lparr>StartInclusive = int k * b, EndExclusive = min (int k * b + b) n\<rparr>"

definition numChunks :: "int \<Rightarrow> int \<Rightarrow> nat" where
  "numChunks n b = nat ((n + b - 1) div b)"

definition chunks :: "nat \<Rightarrow> int \<Rightarrow> rangeIndex list" where
  "chunks len b = map (chunkAt (int len) b) [0 ..< numChunks (int len) b]"

text \<open>The bounds \<open>ps.Slice\<close> accepts, and the store after the loop over the ranges.\<close>

definition validRange :: "nat \<Rightarrow> rangeIndex \<Rightarrow> bool" where
  "validRange len br \<longleftrightarrow>
     0 \<le> StartInclusive br \<and> StartInclusive br \<le> EndExclusive br \<and> EndExclusive br \<le> int len"

definition boundHeap ::
  "Engine \<Rightarrow> ptrSlice \<Rightarrow> rangeIndex list \<Rightarrow> ('v, 'e) heap \<Rightarrow> ('v, 'e) heap" where
  "boundHeap e ps brs s = foldl (\<lambda>s br. bindBatch e ps br s) s brs"

text \<open>
  The models \<open>InitHandles\<close> sees in its argument, and the two reasons for which
  \<open>bindPtrSlice\<close> binds; the length of the normalized slice.
\<close>

definition normalized :: "anyval \<Rightarrow> mref list" where
  "normalized m =
     (case toPtrSlice m of
        None \<Rightarrow> []
      | Some ps \<Rightarrow> if implements ps then elems ps else [])"

definition someUnbound :: "(addr \<Rightarrow> sid option) \<Rightarrow> mref list \<Rightarrow> bool" where
  "someUnbound c xs \<longleftrightarrow> (\<exists>a. Some a \<in> set xs \<and> c a = None)"

definition twoDiffer :: "(addr \<Rightarrow> sid option) \<Rightarrow> mref list \<Rightarrow> bool" where
  "twoDiffer c xs \<longleftrightarrow> (\<exists>a b. Some a \<in> set xs \<and> Some b \<in> set xs \<and> c a \<noteq> c b)"

definition anyLen :: "anyval \<Rightarrow> nat" where
  "anyLen m = (case toPtrSlice m of None \<Rightarrow> 0 | Some ps \<Rightarrow> length (elems ps))"

text \<open>
  \<open>beforeBuild\<close> is the store in which \<open>Resolve\<close> evaluates \<open>Build\<close> when the key has no
  entry: the entry is created and the evaluation is logged. \<open>publish\<close> is
  \<open>pm.ready.Store\<close> followed by the end of \<open>once.Do\<close>. \<open>published\<close> is what a caller
  gets from a published result of \<open>Build\<close>: the error, else the resolver applied to the
  caller's model; calling a nil resolver panics.
\<close>

definition beforeBuild :: "('v, 'e) heap \<Rightarrow> sid \<Rightarrow> string \<Rightarrow> ('v, 'e) heap" where
  "beforeBuild s loader key =
     (snd (LoadOrStore s loader key))\<lparr>buildLog := buildLog s @ [(loader, key)]\<rparr>"

definition publish ::
  "('v, 'e) heap \<Rightarrow> eid \<Rightarrow> ('v, 'e) resolverHolder \<Rightarrow> ('v, 'e) heap" where
  "publish s pm h =
     s\<lparr>entriesAt := (entriesAt s)(pm := (entriesAt s pm)\<lparr>ready := Some h, once := True\<rparr>)\<rparr>"


text \<open>
  Calls of \<open>Resolve\<close> one after the other; a caller that recovers from a panic goes on
  with the store the panic left.
\<close>

fun resolveCalls ::
  "('v, 'e) heap \<Rightarrow> ('v, 'e) ResolveSpec list
     \<Rightarrow> ('v \<times> 'e error option) outcome list \<times> ('v, 'e) heap" where
  "resolveCalls s [] = ([], s)"
| "resolveCalls s (c # cs) =
     (case Resolve s c of
        Returns r s' \<Rightarrow> (case resolveCalls s' cs of (rs, t) \<Rightarrow> (Done r # rs, t))
      | Panics s' \<Rightarrow> (case resolveCalls s' cs of (rs, t) \<Rightarrow> (Panic # rs, t))
      | Diverges \<Rightarrow> ([Diverge], s))"


text \<open>
  The \<open>ResolveSpec\<close> that \<open>Many\<close> hands to \<open>Resolve\<close>, and the group of a parent among
  fetched relations.
\<close>

definition relationSpecResolve ::
  "('k list \<Rightarrow> 'k list) \<Rightarrow> ('k, 'r, 'e) RelationSpec \<Rightarrow> sid \<Rightarrow> ('r list, 'e) ResolveSpec" where
  "relationSpecResolve ord args loader =
     \<lparr>CacheKey = RelCacheKey args, Model = Parent args, Build = queryFunc ord args loader,
      ModelType = ParentType args, ResultType = CHR ''['' # CHR '']'' # RelationType args,
      ResultZero = []\<rparr>"

definition groupOf :: "('k, 'r, 'e) RelationSpec \<Rightarrow> 'r list \<Rightarrow> mref \<Rightarrow> 'r list" where
  "groupOf args rels m =
     (case ModelKey args m of
        Some key \<Rightarrow> filter (\<lambda>r. RelationKey args r = key) rels
      | None \<Rightarrow> [])"



section \<open>Scenarios\<close>

text \<open>
  Stores and specifications of the kind the tests of the package build: three authors at
  the addresses 10, 20 and 30 bound to one state, three books at 11, 12 and 21, a
  resolver that greets an author by name, and a fetch that fails.
\<close>

definition emptyState :: loaderState where
  "emptyState = \<lparr>models = [], modelsType = [], engine = NewEngine [], resolverEntries = (\<lambda>k. None)\<rparr>"

definition emptyHeap :: "('v, 'e) heap" where
  "emptyHeap = \<lparr>core = (\<lambda>a. None), loaderStates = (\<lambda>st. emptyState), nextState = 0,
                 entriesAt = (\<lambda>pm. \<lparr>once = False, ready = None\<rparr>), nextEntry = 0,
                 buildLog = []\<rparr>"

definition authorsHeap :: "('v, 'e) heap" where
  "authorsHeap =
     emptyHeap\<lparr>core := (\<lambda>a. if a = 10 \<or> a = 20 \<or> a = 30 then Some 0 else None),
               loaderStates := (\<lambda>st. emptyState)
                 (0 := \<lparr>models = [Some 10, Some 20, Some 30], modelsType = ''*Author'',
                        engine = NewEngine [], resolverEntries = (\<lambda>k. None)\<rparr>),
               nextState := 1\<rparr>"

definition bookAuthor :: "mref \<Rightarrow> nat" where
  "bookAuthor b = (if b = Some 11 \<or> b = Some 12 then 10 else if b = Some 21 then 20 else 0)"

definition booksByAuthor :: "(nat, mref, string) RelationSpec" where
  "booksByAuthor =
     \<lparr>RelCacheKey = ''booksByAuthor'', Parent = Some 10, ModelKey = (\<lambda>m. m),
      RelationKey = bookAuthor,
      Fetch = (\<lambda>s keys. (([Some 11, Some 12, Some 21], None), s)),
      ParentType = ''*Author'', RelationType = ''*Book'', RelationZero = None,
      RelationsAny = PtrSlice False ''*Book''\<rparr>"

definition authorName :: "mref \<Rightarrow> string" where
  "authorName m = (if m = Some 10 then ''Alice'' else if m = Some 20 then ''Bob'' else [])"

definition greetBuild ::
  "(string, string) heap \<Rightarrow> mref list
     \<Rightarrow> ((mref \<Rightarrow> string) option \<times> string error option, (string, string) heap) res" where
  "greetBuild s ms = Returns (Some (\<lambda>a. if a \<in> set ms then authorName a @ ''!'' else []), None) s"

definition greet :: "mref \<Rightarrow> (string, string) ResolveSpec" where
  "greet m = \<lparr>CacheKey = ''greet'', Model = m, Build = greetBuild,
              ModelType = ''*Author'', ResultType = ''string'', ResultZero = []\<rparr>"

definition greetedHeap :: "(string, string) heap" where
  "greetedHeap =
     publish (beforeBuild authorsHeap 0 ''greet'') 0
       \<lparr>resolver = Some (ResolverFunc ''*Author'' ''string''
                          (Some (\<lambda>a. if a \<in> set [Some 10, Some 20, Some 30]
                                      then authorName a @ ''!'' else []))),
        err = None\<rparr>"

definition failedHeap :: "(mref list, string) heap" where
  "failedHeap =
     publish (beforeBuild authorsHeap 0 ''booksByAuthor'') 0
       \<lparr>resolver = Some (ResolverFunc ''*Author'' ''[]*Book'' None),
        err = Some (Upstream ''db down'')\<rparr>"

text \<open>
  The authors bound through a slice of \<open>*Wrapper\<close>, for a struct \<open>Wrapper\<close> that embeds
  \<open>*Author\<close>: the handles are those of the authors, the slice the state records is a
  \<open>[]*Wrapper\<close>. \<open>refusedHeap\<close> is that store after a \<open>Resolve\<close> with the \<open>Model\<close> type \<open>*Author\<close>
  has published its error. \<open>booksOfSome\<close> is \<open>booksByAuthor\<close> with no join key for the author
  at 30.
\<close>

definition wrappersHeap :: "('v, 'e) heap" where
  "wrappersHeap =
     authorsHeap\<lparr>loaderStates := (\<lambda>st. emptyState)
                   (0 := \<lparr>models = [Some 10, Some 20, Some 30], modelsType = ''*Wrapper'',
                          engine = NewEngine [], resolverEntries = (\<lambda>k. None)\<rparr>)\<rparr>"



section \<open>batchRanges and the bind loop\<close>

lemma wrap64_id: "- (2 ^ 63) \<le> x \<Longrightarrow> x < 2 ^ 63 \<Longrightarrow> wrap64 x = x"
  by (simp add: wrap64_def)

lemma wrap64_pred: "wrap64 (wrap64 x - 1) = wrap64 (x - 1)"
proof -
  have "(wrap64 x - 1 + 2 ^ 63) mod 2 ^ 64 = ((x + 2 ^ 63) mod 2 ^ 64 - 1) mod 2 ^ 64"
    by (simp add: wrap64_def)
  also have "\<dots> = (x + 2 ^ 63 - 1) mod 2 ^ 64"
    by (rule mod_diff_left_eq)
  finally show ?thesis by (simp add: wrap64_def algebra_simps)
qed

lemma lt_numChunks_iff:
  assumes "1 \<le> b"
  shows "k < numChunks n b \<longleftrightarrow> int k * b < n"
proof -
  have b: "0 < b" using assms by simp
  have "(n + b - 1 - int k * b) div b = (n + b - 1) div b - int k"
    using b div_mult_self1 [of b "n + b - 1" "- int k"] by (simp add: algebra_simps)
  then have "int k < (n + b - 1) div b \<longleftrightarrow> 0 < (n + b - 1 - int k * b) div b"
    by simp
  also have "\<dots> \<longleftrightarrow> b \<le> n + b - 1 - int k * b"
    using b by (rule pos_imp_zdiv_pos_iff)
  also have "\<dots> \<longleftrightarrow> int k * b < n" by auto
  finally have "int k < (n + b - 1) div b \<longleftrightarrow> int k * b < n" .
  then show ?thesis unfolding numChunks_def by (simp add: zless_nat_eq_int_zless)
qed

lemma batchLoop_chunks:
  assumes "1 \<le> b" and "n + b \<le> 2 ^ 63" and "0 \<le> n"
  shows "batchLoop n b (int k * b) out = Some (out @ map (chunkAt n b) [k ..< numChunks n b])"
  using assms
proof (induction "numChunks n b - k" arbitrary: k out)
  case 0
  then have "\<not> k < numChunks n b" by simp
  then have "\<not> int k * b < n" using lt_numChunks_iff [OF \<open>1 \<le> b\<close>] by simp
  then show ?case using \<open>\<not> k < numChunks n b\<close> by (subst batchLoop.simps) simp
next
  case (Suc d)
  then have lt: "k < numChunks n b" by simp
  then have kb: "int k * b < n" using lt_numChunks_iff [OF \<open>1 \<le> b\<close>] by simp
  have nonneg: "0 \<le> int k * b" using \<open>1 \<le> b\<close> by simp
  have m: "(0::int) \<le> 2 ^ 63" by simp
  have lo: "- (2 ^ 63) \<le> int k * b + b" using nonneg \<open>1 \<le> b\<close> m by linarith
  have hi: "int k * b + b < 2 ^ 63" using kb Suc.prems by linarith
  have w: "wrap64 (int k * b + b) = int (Suc k) * b"
    using wrap64_id [OF lo hi] by (simp add: algebra_simps)
  have d: "d = numChunks n b - Suc k" using Suc.hyps(2) by simp
  have ih: "batchLoop n b (int (Suc k) * b) out' =
          Some (out' @ map (chunkAt n b) [Suc k ..< numChunks n b])" for out'
    using Suc.hyps(1) [OF d Suc.prems] .
  have c: "chunkAt n b k = \<lparr>StartInclusive = int k * b,
             EndExclusive = (if int (Suc k) * b > n then n else int (Suc k) * b)\<rparr>"
    by (auto simp: chunkAt_def min_def algebra_simps)
  show ?case
    apply (subst batchLoop.simps)
    apply (simp only: kb if_True w ih)
    apply (simp add: upt_conv_Cons [OF lt] c)
    done
qed

lemma batchRanges_chunks:
  assumes "0 < n" and "1 \<le> b" and "n + b \<le> 2 ^ 63"
  shows "batchRanges n b = Done (map (chunkAt n b) [0 ..< numChunks n b])"
proof -
  have m: "(0::int) \<le> 2 ^ 63" by simp
  have lo: "- (2 ^ 63) \<le> n + b - 1" using assms m by linarith
  have hi: "n + b - 1 < 2 ^ 63" using assms by linarith
  have w: "wrap64 (wrap64 (n + b) - 1) = n + b - 1"
    by (simp only: wrap64_pred wrap64_id [OF lo hi])
  have q0: "0 \<le> (n + b - 1) div b" using assms by (simp add: pos_imp_zdiv_nonneg_iff)
  have q1: "(n + b - 1) div b \<le> n + b - 1"
    using assms int_div_le_self [of "n + b - 1" b] by simp
  have lo': "- (2 ^ 63) \<le> (n + b - 1) div b" using q0 m by linarith
  have hi': "(n + b - 1) div b < 2 ^ 63" using q1 hi by linarith
  have "sgn (n + b - 1) * sgn b * (\<bar>n + b - 1\<bar> div \<bar>b\<bar>) = (n + b - 1) div b"
    using assms by (simp add: sgn_if)
  then have q: "go_quot (n + b - 1) b = (n + b - 1) div b"
    unfolding go_quot_def using wrap64_id [OF lo' hi'] by simp
  have l: "batchLoop n b 0 [] = Some (map (chunkAt n b) [0 ..< numChunks n b])"
    using batchLoop_chunks [of b n 0 "[]"] assms by simp
  show ?thesis
    unfolding batchRanges_def using assms q0 by (simp add: w q l)
qed

lemma setStates_apply:
  "setStates st xs c a = (if Some a \<in> set xs then Some st else c a)"
proof (induction xs arbitrary: c)
  case Nil
  show ?case by simp
next
  case (Cons x xs)
  show ?case by (cases x) (simp_all add: Cons.IH)
qed

lemma needScan_iff:
  "needScan c first xs \<longleftrightarrow>
     \<not> (\<exists>st. (first = None \<or> first = Some st) \<and> (\<forall>a. Some a \<in> set xs \<longrightarrow> c a = Some st))"
proof (induction c first xs rule: needScan.induct)
  case (1 c first)
  then show ?case by (cases first) auto
next
  case (2 c first xs)
  then show ?case by simp
next
  case (3 c first a xs)
  show ?case
  proof (cases "c a")
    case None
    then show ?thesis by auto
  next
    case (Some st)
    show ?thesis
    proof (cases first)
      case None
      with Some 3 show ?thesis by auto
    next
      case (Some f)
      with \<open>c a = Some st\<close> 3 show ?thesis by auto
    qed
  qed
qed

lemma needScan_nonempty: "needScan c first xs \<Longrightarrow> xs \<noteq> []"
  by auto

lemma needScan_unbound_or_differ:
  "needScan c None xs \<longleftrightarrow> someUnbound c xs \<or> twoDiffer c xs"
proof -
  have "(\<exists>st. \<forall>a. Some a \<in> set xs \<longrightarrow> c a = Some st) \<longleftrightarrow> \<not> someUnbound c xs \<and> \<not> twoDiffer c xs"
  proof
    assume "\<exists>st. \<forall>a. Some a \<in> set xs \<longrightarrow> c a = Some st"
    then obtain st where st: "\<forall>a. Some a \<in> set xs \<longrightarrow> c a = Some st" by blast
    have "\<not> someUnbound c xs" unfolding someUnbound_def using st by fastforce
    moreover have "\<not> twoDiffer c xs" unfolding twoDiffer_def using st by fastforce
    ultimately show "\<not> someUnbound c xs \<and> \<not> twoDiffer c xs" by blast
  next
    assume h: "\<not> someUnbound c xs \<and> \<not> twoDiffer c xs"
    show "\<exists>st. \<forall>a. Some a \<in> set xs \<longrightarrow> c a = Some st"
    proof (cases "\<exists>a. Some a \<in> set xs")
      case False
      then show ?thesis by auto
    next
      case True
      then obtain a where a: "Some a \<in> set xs" by blast
      have "c a \<noteq> None" using h a unfolding someUnbound_def by auto
      then obtain st where st: "c a = Some st" by auto
      have "\<forall>b. Some b \<in> set xs \<longrightarrow> c b = c a"
        using h a unfolding twoDiffer_def by metis
      then have "\<forall>b. Some b \<in> set xs \<longrightarrow> c b = Some st"
        using st by simp
      then show ?thesis by blast
    qed
  qed
  then show ?thesis by (simp add: needScan_iff)
qed

lemma bindBatch_sel:
  "nextState (bindBatch e ps br s) = Suc (nextState s)"
  "entriesAt (bindBatch e ps br s) = entriesAt s"
  "nextEntry (bindBatch e ps br s) = nextEntry s"
  "buildLog (bindBatch e ps br s) = buildLog s"
  "loaderStates (bindBatch e ps br s) =
     (loaderStates s)(nextState s := \<lparr>models = subSlice (elems ps) br, modelsType = elemType ps,
                                       engine = e, resolverEntries = (\<lambda>k. None)\<rparr>)"
  "core (bindBatch e ps br s) =
     (if implements ps then setStates (nextState s) (subSlice (elems ps) br) (core s) else core s)"
  by (simp_all add: bindBatch_def)

lemma boundHeap_simps:
  "boundHeap e ps [] s = s"
  "boundHeap e ps (br # brs) s = boundHeap e ps brs (bindBatch e ps br s)"
  "boundHeap e ps (brs @ [br]) s = bindBatch e ps br (boundHeap e ps brs s)"
  by (simp_all add: boundHeap_def)

lemma bindBatches_boundHeap:
  "list_all (validRange (length (elems ps))) brs \<Longrightarrow>
     bindBatches e ps brs s = Returns () (boundHeap e ps brs s)"
  by (induction brs arbitrary: s) (simp_all add: validRange_def boundHeap_simps)

lemma bound_nextState:
  "nextState (boundHeap e ps brs s) = nextState s + length brs"
  by (induction brs rule: rev_induct) (simp_all add: boundHeap_simps bindBatch_sel)

lemma bound_frame:
  "entriesAt (boundHeap e ps brs s) = entriesAt s"
  "nextEntry (boundHeap e ps brs s) = nextEntry s"
  "buildLog (boundHeap e ps brs s) = buildLog s"
  by (induction brs rule: rev_induct) (simp_all add: boundHeap_simps bindBatch_sel)

lemma bound_old_states:
  "x < nextState s \<Longrightarrow> loaderStates (boundHeap e ps brs s) x = loaderStates s x"
  by (induction brs rule: rev_induct) (simp_all add: boundHeap_simps bindBatch_sel bound_nextState)

lemma bound_new_states:
  "k < length brs \<Longrightarrow>
     loaderStates (boundHeap e ps brs s) (nextState s + k) =
       \<lparr>models = subSlice (elems ps) (brs ! k), modelsType = elemType ps,
        engine = e, resolverEntries = (\<lambda>k. None)\<rparr>"
proof (induction brs rule: rev_induct)
  case Nil
  then show ?case by simp
next
  case (snoc br brs)
  show ?case
  proof (cases "k < length brs")
    case True
    with snoc.IH show ?thesis
      by (simp add: boundHeap_simps bindBatch_sel bound_nextState nth_append)
  next
    case False
    with snoc.prems have "k = length brs" by simp
    then show ?thesis by (simp add: boundHeap_simps bindBatch_sel bound_nextState)
  qed
qed

lemma bound_core_untouched:
  "\<forall>br \<in> set brs. Some a \<notin> set (subSlice (elems ps) br) \<Longrightarrow>
     core (boundHeap e ps brs s) a = core s a"
  by (induction brs rule: rev_induct) (simp_all add: boundHeap_simps bindBatch_sel setStates_apply)

lemma bound_core_last:
  assumes "implements ps" and "k < length brs"
    and "Some a \<in> set (subSlice (elems ps) (brs ! k))"
    and "\<forall>k'. k < k' \<and> k' < length brs \<longrightarrow> Some a \<notin> set (subSlice (elems ps) (brs ! k'))"
  shows "core (boundHeap e ps brs s) a = Some (nextState s + k)"
  using assms
proof (induction brs rule: rev_induct)
  case Nil
  then show ?case by simp
next
  case (snoc br brs)
  show ?case
  proof (cases "k < length brs")
    case True
    have notin: "Some a \<notin> set (subSlice (elems ps) br)"
      using snoc.prems(4) True by (auto simp: nth_append dest: spec [of _ "length brs"])
    have later: "\<forall>k'. k < k' \<and> k' < length brs \<longrightarrow> Some a \<notin> set (subSlice (elems ps) (brs ! k'))"
    proof (intro allI impI)
      fix k' assume "k < k' \<and> k' < length brs"
      then show "Some a \<notin> set (subSlice (elems ps) (brs ! k'))"
        using snoc.prems(4) by (auto simp: nth_append dest!: spec [of _ k'])
    qed
    have "Some a \<in> set (subSlice (elems ps) (brs ! k))"
      using snoc.prems(3) True by (simp add: nth_append)
    from snoc.IH [OF snoc.prems(1) True this later] notin show ?thesis
      by (simp add: boundHeap_simps bindBatch_sel setStates_apply snoc.prems(1))
  next
    case False
    with snoc.prems have k: "k = length brs" by simp
    with snoc.prems(3) have "Some a \<in> set (subSlice (elems ps) br)" by simp
    then show ?thesis
      by (simp add: boundHeap_simps bindBatch_sel setStates_apply snoc.prems(1) bound_nextState k)
  qed
qed

lemma bound_core_fresh:
  assumes "implements ps" and "\<exists>br \<in> set brs. Some a \<in> set (subSlice (elems ps) br)"
  shows "\<exists>st. core (boundHeap e ps brs s) a = Some st
            \<and> nextState s \<le> st \<and> st < nextState s + length brs"
  using assms(2)
proof (induction brs rule: rev_induct)
  case Nil
  then show ?case by simp
next
  case (snoc br brs)
  show ?case
  proof (cases "Some a \<in> set (subSlice (elems ps) br)")
    case True
    then show ?thesis
      by (simp add: boundHeap_simps bindBatch_sel setStates_apply assms(1) bound_nextState)
  next
    case False
    with snoc.prems have "\<exists>br \<in> set brs. Some a \<in> set (subSlice (elems ps) br)" by auto
    from snoc.IH [OF this] False show ?thesis
      by (auto simp: boundHeap_simps bindBatch_sel setStates_apply assms(1))
  qed
qed

lemma set_take_drop:
  "set (take m (drop d xs)) = {xs ! j | j. d \<le> j \<and> j < d + m \<and> j < length xs}"
proof (intro set_eqI iffI)
  fix x assume "x \<in> set (take m (drop d xs))"
  then obtain i where i: "i < length (take m (drop d xs))" and x: "take m (drop d xs) ! i = x"
    by (auto simp: in_set_conv_nth)
  from i have "i < m" "d + i < length xs" by auto
  with x have "x = xs ! (d + i)" by simp
  with \<open>i < m\<close> \<open>d + i < length xs\<close>
  show "x \<in> {xs ! j | j. d \<le> j \<and> j < d + m \<and> j < length xs}"
    by (intro CollectI exI [of _ "d + i"]) simp
next
  fix x assume "x \<in> {xs ! j | j. d \<le> j \<and> j < d + m \<and> j < length xs}"
  then obtain j where j: "x = xs ! j" "d \<le> j" "j < d + m" "j < length xs" by blast
  then have "j - d < length (take m (drop d xs))" by auto
  moreover have "take m (drop d xs) ! (j - d) = x" using j by simp
  ultimately show "x \<in> set (take m (drop d xs))" by (auto simp: in_set_conv_nth)
qed

lemma chunks_valid:
  assumes "1 \<le> b"
  shows "list_all (validRange len) (map (chunkAt (int len) b) [0 ..< numChunks (int len) b])"
proof -
  have "validRange len (chunkAt (int len) b k)" if "k < numChunks (int len) b" for k
  proof -
    have "int k * b < int len" using that lt_numChunks_iff [OF assms] by simp
    moreover have "0 \<le> int k * b" using assms by simp
    ultimately show ?thesis using assms by (simp add: validRange_def chunkAt_def)
  qed
  then show ?thesis by (simp add: list_all_iff)
qed

lemma subSlice_chunk:
  assumes "1 \<le> b" and "k < numChunks (int (length xs)) b"
  shows "subSlice xs (chunkAt (int (length xs)) b k) = take (nat b) (drop (k * nat b) xs)"
proof -
  have kb: "int k * b < int (length xs)" using assms lt_numChunks_iff by simp
  have d: "nat (int k * b) = k * nat b" using assms by (simp add: nat_mult_distrib)
  show ?thesis
  proof (cases "int k * b + b \<le> int (length xs)")
    case True
    then show ?thesis by (simp add: subSlice_def chunkAt_def d min_def)
  next
    case False
    then have "length (drop (k * nat b) xs) \<le> nat b"
      using assms(1) d by (simp add: nat_le_iff)
    moreover have "length (drop (k * nat b) xs) \<le> nat (int (length xs) - int k * b)"
      using d by simp
    ultimately show ?thesis using False by (simp add: subSlice_def chunkAt_def d min_def)
  qed
qed

lemma numChunks_nat:
  assumes "1 \<le> b"
  shows "numChunks (int M) b = (M + nat b - 1) div nat b"
proof -
  have "int M + b - 1 = int (M + nat b - 1)" using assms by auto
  moreover have "b = int (nat b)" using assms by simp
  ultimately have "(int M + b - 1) div b = int ((M + nat b - 1) div nat b)"
    by (metis zdiv_int)
  then show ?thesis by (simp add: numChunks_def)
qed

lemma length_chunks: "1 \<le> b \<Longrightarrow> length (chunks len b) = (len + nat b - 1) div nat b"
  by (simp add: chunks_def numChunks_nat)

lemma chunks_nth:
  "1 \<le> b \<Longrightarrow> k < (length xs + nat b - 1) div nat b \<Longrightarrow>
     subSlice xs (chunks (length xs) b ! k) = take (nat b) (drop (k * nat b) xs)"
  by (simp add: chunks_def numChunks_nat subSlice_chunk)

lemma chunk_member:
  assumes "1 \<le> b" and "j < length xs"
  shows "j div nat b < (length xs + nat b - 1) div nat b"
    and "xs ! j \<in> set (take (nat b) (drop (j div nat b * nat b) xs))"
proof -
  have B: "0 < nat b" using assms by simp
  have "j div nat b * nat b \<le> j" by simp
  then have "int (j div nat b * nat b) \<le> int j" by (simp only: of_nat_le_iff)
  moreover have "int (j div nat b * nat b) = int (j div nat b) * b" using assms(1) by simp
  ultimately have "int (j div nat b) * b \<le> int j" by (simp only:)
  then have "int (j div nat b) * b < int (length xs)" using assms(2) by linarith
  then have "j div nat b < numChunks (int (length xs)) b"
    using lt_numChunks_iff [OF assms(1)] by simp
  then show "j div nat b < (length xs + nat b - 1) div nat b"
    by (simp add: numChunks_nat assms(1))
  have "j div nat b * nat b \<le> j" by simp
  moreover have "j < j div nat b * nat b + nat b"
    using B by (metis add.commute dividend_less_div_times mult.commute)
  ultimately show "xs ! j \<in> set (take (nat b) (drop (j div nat b * nat b) xs))"
    using assms(2) unfolding set_take_drop by blast
qed

lemma chunk_member_inv:
  assumes "1 \<le> b" and "x \<in> set (take (nat b) (drop (k * nat b) xs))"
  shows "\<exists>j < length xs. xs ! j = x \<and> j div nat b = k"
proof -
  from assms(2) obtain j where j: "x = xs ! j" "k * nat b \<le> j" "j < k * nat b + nat b" "j < length xs"
    unfolding set_take_drop by blast
  have "j div nat b = k"
    using j(2,3) by (intro div_nat_eqI) (simp_all add: mult.commute)
  with j show ?thesis by blast
qed

lemma bindPtrSlice_bound:
  assumes "implements ps" and "needScan (core s) None (elems ps)"
    and "1 \<le> batchSize (config e)"
    and "int (length (elems ps)) + batchSize (config e) \<le> 2 ^ 63"
  shows "bindPtrSlice e s ps =
           Returns () (boundHeap e ps (chunks (length (elems ps)) (batchSize (config e))) s)"
proof -
  have "elems ps \<noteq> []" using assms(2) by (rule needScan_nonempty)
  then have pos: "0 < int (length (elems ps))" by simp
  have r: "batchRanges (int (length (elems ps))) (batchSize (config e)) =
             Done (chunks (length (elems ps)) (batchSize (config e)))"
    unfolding chunks_def by (rule batchRanges_chunks [OF pos assms(3,4)])
  have v: "list_all (validRange (length (elems ps))) (chunks (length (elems ps)) (batchSize (config e)))"
    unfolding chunks_def by (rule chunks_valid [OF assms(3)])
  show ?thesis
    unfolding bindPtrSlice_def using assms(1,2) by (simp add: r bindBatches_boundHeap [OF v])
qed

text \<open>
  Binding a slice of unbound models, for a batch size \<open>B\<close> from 1 on with \<open>M + B - 1\<close> in
  the range of \<open>int\<close>: \<open>ceil (M / B)\<close> new states, the \<open>i\<close>-th holding the elements from
  \<open>i * B\<close> to \<open>min ((i + 1) * B) M\<close>, and each model that occurs once in the slice bound to
  the state of its chunk.
\<close>

lemma bindPtrSlice_partition:
  assumes impl: "implements ps"
    and b: "1 \<le> batchSize (config e)"
    and fits: "int (length (elems ps)) + batchSize (config e) \<le> 2 ^ 63"
    and unbound: "\<forall>a. Some a \<in> set (elems ps) \<longrightarrow> core s a = None"
    and nonempty: "\<exists>a. Some a \<in> set (elems ps)"
  shows "\<exists>t. bindPtrSlice e s ps = Returns () t
     \<and> nextState t =
         nextState s + (length (elems ps) + nat (batchSize (config e)) - 1) div nat (batchSize (config e))
     \<and> (\<forall>i < (length (elems ps) + nat (batchSize (config e)) - 1) div nat (batchSize (config e)).
          models (loaderStates t (nextState s + i)) =
            take (nat (batchSize (config e))) (drop (i * nat (batchSize (config e))) (elems ps)))
     \<and> (\<forall>j < length (elems ps). \<forall>a.
          elems ps ! j = Some a \<and> (\<forall>j' < length (elems ps). elems ps ! j' = Some a \<longrightarrow> j' = j)
          \<longrightarrow> core t a = Some (nextState s + j div nat (batchSize (config e))))"
proof -
  define B where "B = batchSize (config e)"
  define xs where "xs = elems ps"
  define N where "N = (length xs + nat B - 1) div nat B"
  define brs where "brs = chunks (length xs) B"
  define t where "t = boundHeap e ps brs s"
  have need: "needScan (core s) None (elems ps)"
    using unbound nonempty by (auto simp: needScan_unbound_or_differ someUnbound_def)
  have ret: "bindPtrSlice e s ps = Returns () t"
    unfolding t_def brs_def xs_def B_def by (rule bindPtrSlice_bound [OF impl need b fits])
  have len: "length brs = N"
    unfolding brs_def N_def using b by (simp add: length_chunks B_def)
  have slice: "subSlice xs (brs ! i) = take (nat B) (drop (i * nat B) xs)" if "i < N" for i
    unfolding brs_def using that b by (simp add: chunks_nth N_def B_def)
  have ns: "nextState t = nextState s + N"
    unfolding t_def by (simp add: bound_nextState len)
  have st: "models (loaderStates t (nextState s + i)) = take (nat B) (drop (i * nat B) xs)"
    if "i < N" for i
    unfolding t_def using that by (simp add: bound_new_states len slice xs_def [symmetric])
  have co: "core t a = Some (nextState s + j div nat B)"
    if j: "j < length xs" and a: "xs ! j = Some a"
      and uniq: "\<forall>j' < length xs. xs ! j' = Some a \<longrightarrow> j' = j" for j a
  proof -
    have k: "j div nat B < N" and mem: "xs ! j \<in> set (take (nat B) (drop (j div nat B * nat B) xs))"
      using chunk_member [of B j xs] b j by (simp_all add: N_def B_def)
    have later: "\<forall>k'. j div nat B < k' \<and> k' < length brs \<longrightarrow>
                   Some a \<notin> set (subSlice (elems ps) (brs ! k'))"
    proof (intro allI impI notI)
      fix k' assume k': "j div nat B < k' \<and> k' < length brs"
        and "Some a \<in> set (subSlice (elems ps) (brs ! k'))"
      then have "Some a \<in> set (take (nat B) (drop (k' * nat B) xs))"
        using slice [of k'] len by (simp add: xs_def)
      then obtain j' where "j' < length xs" "xs ! j' = Some a" "j' div nat B = k'"
        using chunk_member_inv [of B "Some a" k' xs] b by (auto simp: B_def)
      with uniq k' show False by auto
    qed
    have "Some a \<in> set (subSlice (elems ps) (brs ! (j div nat B)))"
      using mem a slice [OF k] by (simp add: xs_def)
    from bound_core_last [OF impl _ this later] k len show ?thesis
      by (simp add: t_def)
  qed
  show ?thesis
    using ret ns st co unfolding N_def xs_def B_def by blast
qed

text \<open>A bare pointer to an unbound model is bound as a slice of one element.\<close>

lemma bare_reference_singleton:
  assumes "core s a = None" and "1 \<le> batchSize (config e)" and "batchSize (config e) < 2 ^ 63"
  shows "\<exists>t. InitHandles e s (ModelPtr ty (Some a)) = Returns () t
           \<and> core t a = Some (nextState s)
           \<and> models (loaderStates t (nextState s)) = [Some a]"
proof -
  let ?ps = "\<lparr>elemType = ty, implements = True, elems = [Some a]\<rparr>"
  have tp: "toPtrSlice (ModelPtr ty (Some a)) = Some ?ps" by (simp add: toPtrSlice_def)
  have "\<exists>t. bindPtrSlice e s ?ps = Returns () t
     \<and> nextState t =
         nextState s + (length (elems ?ps) + nat (batchSize (config e)) - 1) div nat (batchSize (config e))
     \<and> (\<forall>i < (length (elems ?ps) + nat (batchSize (config e)) - 1) div nat (batchSize (config e)).
          models (loaderStates t (nextState s + i)) =
            take (nat (batchSize (config e))) (drop (i * nat (batchSize (config e))) (elems ?ps)))
     \<and> (\<forall>j < length (elems ?ps). \<forall>a.
          elems ?ps ! j = Some a \<and> (\<forall>j' < length (elems ?ps). elems ?ps ! j' = Some a \<longrightarrow> j' = j)
          \<longrightarrow> core t a = Some (nextState s + j div nat (batchSize (config e))))"
    using assms by (intro bindPtrSlice_partition) simp_all
  then obtain t where t: "bindPtrSlice e s ?ps = Returns () t"
    and st: "\<forall>i < (1 + nat (batchSize (config e)) - 1) div nat (batchSize (config e)).
          models (loaderStates t (nextState s + i)) =
            take (nat (batchSize (config e))) (drop (i * nat (batchSize (config e))) [Some a])"
    and co: "\<forall>j < 1. \<forall>a'. [Some a] ! j = Some a' \<and> (\<forall>j' < 1. [Some a] ! j' = Some a' \<longrightarrow> j' = j)
          \<longrightarrow> core t a' = Some (nextState s + j div nat (batchSize (config e)))"
    by auto
  have one: "(1 + nat (batchSize (config e)) - 1) div nat (batchSize (config e)) = 1"
    using assms(2) by simp
  have "models (loaderStates t (nextState s)) = [Some a]"
    using st [rule_format, of 0] one assms(2) by simp
  moreover have "core t a = Some (nextState s)"
    using co [rule_format, of 0 a] by simp
  moreover have "InitHandles e s (ModelPtr ty (Some a)) = Returns () t"
    using t by (simp add: InitHandles_def tp)
  ultimately show ?thesis by blast
qed

lemma InitHandles_returns:
  assumes "1 \<le> batchSize (config e)" and "int (anyLen m) + batchSize (config e) \<le> 2 ^ 63"
  shows "\<exists>s'. InitHandles e s m = Returns () s'"
proof (cases "toPtrSlice m")
  case None
  then show ?thesis by (simp add: InitHandles_def)
next
  case (Some ps)
  show ?thesis
  proof (cases "implements ps \<and> needScan (core s) None (elems ps)")
    case True
    then have "bindPtrSlice e s ps =
        Returns () (boundHeap e ps (chunks (length (elems ps)) (batchSize (config e))) s)"
      using bindPtrSlice_bound [of ps s e] assms Some by (simp add: anyLen_def)
    then show ?thesis using Some by (simp add: InitHandles_def)
  next
    case False
    then have "bindPtrSlice e s ps = Returns () s" by (auto simp: bindPtrSlice_def)
    then show ?thesis using Some by (simp add: InitHandles_def)
  qed
qed



section \<open>Resolve, Many and Reset\<close>



lemma Resolve_cached:
  assumes "Model c = Some a" and "core s a = Some S"
    and "resolverEntries (loaderStates s S) (CacheKey c) = Some pm"
    and "ready (entriesAt s pm) = Some h"
  shows "Resolve s c =
           applyResolver (ModelType c) (ResultType c) (ResultZero c) (Some h) (CacheKey c) (Some a) s"
  using assms by (simp add: Resolve_def LoadOrStore_def)

lemma Resolve_builds:
  assumes "Model c = Some a" and "core s a = Some S"
    and "resolverEntries (loaderStates s S) (CacheKey c) = None"
    and "modelsType (loaderStates s S) = ModelType c"
    and "Build c (beforeBuild s S (CacheKey c)) (models (loaderStates s S)) = Returns (fn, e) s'"
  shows "Resolve s c =
           applyResolver (ModelType c) (ResultType c) (ResultZero c)
             (Some \<lparr>resolver = Some (ResolverFunc (ModelType c) (ResultType c) fn), err = e\<rparr>)
             (CacheKey c) (Some a)
             (publish s' (nextEntry s)
                \<lparr>resolver = Some (ResolverFunc (ModelType c) (ResultType c) fn), err = e\<rparr>)"
  using assms
  by (simp add: Resolve_def LoadOrStore_def onceDo_def beforeBuild_def publish_def)

lemma Resolve_lode_go_non_nil:
  "Model spec \<noteq> None \<Longrightarrow> Resolve_lode_go s spec = Resolve s spec"
  by (auto simp: Resolve_lode_go_def Resolve_def)




lemma grouped_filter_aux:
  "foldl (\<lambda>g r. g(rk r := g (rk r) @ [r])) g0 rels k = g0 k @ filter (\<lambda>r. rk r = k) rels"
  by (induction rels arbitrary: g0) simp_all

lemma grouped_filter: "grouped rk rels k = filter (\<lambda>r. rk r = k) rels"
  by (simp add: grouped_def grouped_filter_aux)

lemma relationSpecResolve_sel:
  "CacheKey (relationSpecResolve ord args S) = RelCacheKey args"
  "Model (relationSpecResolve ord args S) = Parent args"
  "Build (relationSpecResolve ord args S) = queryFunc ord args S"
  "ModelType (relationSpecResolve ord args S) = ParentType args"
  "ResultType (relationSpecResolve ord args S) = CHR ''['' # CHR '']'' # RelationType args"
  "ResultZero (relationSpecResolve ord args S) = []"
  by (simp_all add: relationSpecResolve_def)

lemma Many_delegates:
  assumes "Parent args = Some a" and "ModelKey args (Some a) = Some k" and "core s a = Some S"
  shows "Many ord s args =
           (case Resolve s (relationSpecResolve ord args S) of
              Returns (result, e) s' \<Rightarrow>
                (case e of Some x \<Rightarrow> Returns ([], Some x) s' | None \<Rightarrow> Returns (result, None) s')
            | Panics s' \<Rightarrow> Panics s'
            | Diverges \<Rightarrow> Diverges)"
  using assms by (simp add: Many_def relationSpecResolve_def)

lemma queryFunc_ok:
  assumes "Fetch args s (ord (remdups (List.map_filter (ModelKey args) ms))) = ((rels, None), s2)"
    and "InitHandles (engine (loaderStates s2 S)) s2 (RelationsAny args rels) = Returns () s3"
  shows "queryFunc ord args S s ms = Returns (Some (groupOf args rels), None) s3"
proof -
  have "(\<lambda>m. case ModelKey args m of Some key \<Rightarrow> grouped (RelationKey args) rels key | None \<Rightarrow> [])
          = groupOf args rels"
    by (rule ext) (simp add: groupOf_def grouped_filter split: option.splits)
  then show ?thesis using assms by (simp add: queryFunc_def)
qed





lemma Many_cached:
  assumes "core u b = Some S"
    and "resolverEntries (loaderStates u S) (RelCacheKey args) = Some pm"
    and "ready (entriesAt u pm) = Some h"
    and "ModelKey args (Some b) \<noteq> None"
  shows "Many ord u (args\<lparr>Parent := Some b\<rparr>) =
           (case applyResolver (ParentType args) (CHR ''['' # CHR '']'' # RelationType args) []
                   (Some h) (RelCacheKey args) (Some b) u of
              Returns (result, e) s' \<Rightarrow>
                (case e of Some x \<Rightarrow> Returns ([], Some x) s' | None \<Rightarrow> Returns (result, None) s')
            | Panics s' \<Rightarrow> Panics s'
            | Diverges \<Rightarrow> Diverges)"
proof -
  from assms(4) obtain k where k: "ModelKey args (Some b) = Some k" by auto
  have "Resolve u (relationSpecResolve ord (args\<lparr>Parent := Some b\<rparr>) S) =
          applyResolver (ParentType args) (CHR ''['' # CHR '']'' # RelationType args) []
            (Some h) (RelCacheKey args) (Some b) u"
    using Resolve_cached [of "relationSpecResolve ord (args\<lparr>Parent := Some b\<rparr>) S" b u S pm h] assms
    by (simp add: relationSpecResolve_sel)
  then show ?thesis
    using Many_delegates [of "args\<lparr>Parent := Some b\<rparr>" b k u S ord] k assms(1) by simp
qed







text \<open>
  \<open>Many\<close> for a bound parent with join key \<open>k\<close>, in a store where the state of the parent
  has no entry for the cache key; \<open>Fetch\<close> returns relations and no error, and the batch
  size \<open>B\<close> of the engine is at least 1 with \<open>len + B - 1\<close> in the range of \<open>int\<close> for the
  fetched slice. The call returns exactly the relations \<open>r\<close> of the result of \<open>Fetch\<close> with
  \<open>RelationKey r = k\<close>, in the order of \<open>Fetch\<close>, and a nil error; that is the empty list when
  no relation matches. Every parent that is bound to the state afterwards gets its own
  group of the same result, with the store unchanged.
\<close>

lemma Many_returns_group:
  assumes parent: "Parent args = Some a" "core s a = Some S" "ModelKey args (Some a) = Some k"
    and fresh: "resolverEntries (loaderStates s S) (RelCacheKey args) = None"
    and typed: "modelsType (loaderStates s S) = ParentType args"
    and fetch: "Fetch args (beforeBuild s S (RelCacheKey args))
                  (ord (remdups (List.map_filter (ModelKey args) (models (loaderStates s S)))))
                = ((rels, None), sf)"
    and eng: "1 \<le> batchSize (config (engine (loaderStates sf S)))"
             "int (anyLen (RelationsAny args rels)) + batchSize (config (engine (loaderStates sf S)))
                \<le> 2 ^ 63"
  shows "\<exists>t. Many ord s args = Returns (filter (\<lambda>r. RelationKey args r = k) rels, None) t
           \<and> (\<forall>b k' ord'.
                 core t b = Some S
                 \<and> resolverEntries (loaderStates t S) (RelCacheKey args) = Some (nextEntry s)
                 \<and> ModelKey args (Some b) = Some k'
                 \<longrightarrow> Many ord' t (args\<lparr>Parent := Some b\<rparr>)
                       = Returns (filter (\<lambda>r. RelationKey args r = k') rels, None) t)"
proof -
  from InitHandles_returns [OF eng] obtain s3 where
    ih: "InitHandles (engine (loaderStates sf S)) sf (RelationsAny args rels) = Returns () s3"
    by blast
  let ?c = "relationSpecResolve ord args S"
  let ?h = "\<lparr>resolver = Some (ResolverFunc (ParentType args)
                  (CHR ''['' # CHR '']'' # RelationType args) (Some (groupOf args rels))),
             err = None\<rparr> :: ('b list, 'c) resolverHolder"
  let ?t = "publish s3 (nextEntry s) ?h"
  have b: "Build ?c (beforeBuild s S (CacheKey ?c)) (models (loaderStates s S)) =
             Returns (Some (groupOf args rels), None) s3"
    using queryFunc_ok [OF _ ih] fetch by (simp add: relationSpecResolve_sel)
  have r: "Resolve s ?c =
       applyResolver (ModelType ?c) (ResultType ?c) (ResultZero ?c)
         (Some \<lparr>resolver = Some (ResolverFunc (ModelType ?c) (ResultType ?c) (Some (groupOf args rels))),
                err = None\<rparr>)
         (CacheKey ?c) (Some a)
         (publish s3 (nextEntry s)
            \<lparr>resolver = Some (ResolverFunc (ModelType ?c) (ResultType ?c) (Some (groupOf args rels))),
             err = None\<rparr>)"
  proof (rule Resolve_builds [OF _ parent(2) _ _ b])
    show "Model ?c = Some a" using parent(1) by (simp add: relationSpecResolve_sel)
    show "resolverEntries (loaderStates s S) (CacheKey ?c) = None"
      using fresh by (simp add: relationSpecResolve_sel)
    show "modelsType (loaderStates s S) = ModelType ?c"
      using typed by (simp add: relationSpecResolve_sel)
  qed
  have "Resolve s ?c = Returns (groupOf args rels (Some a), None) ?t"
    unfolding r by (simp add: relationSpecResolve_sel applyResolver_def)
  then have first: "Many ord s args =
      Returns (filter (\<lambda>r. RelationKey args r = k) rels, None) ?t"
    using Many_delegates [OF parent(1,3,2)] parent(3) by (simp add: groupOf_def)
  have rdy: "ready (entriesAt ?t (nextEntry s)) = Some ?h"
    by (simp add: publish_def)
  have later: "Many ord' ?t (args\<lparr>Parent := Some b\<rparr>)
                 = Returns (filter (\<lambda>r. RelationKey args r = k') rels, None) ?t"
    if "core ?t b = Some S"
      and "resolverEntries (loaderStates ?t S) (RelCacheKey args) = Some (nextEntry s)"
      and "ModelKey args (Some b) = Some k'" for b k' ord'
    using Many_cached [OF that(1,2) rdy, of ord'] that(3)
    by (simp add: applyResolver_def groupOf_def)
  show ?thesis
    using first later by blast
qed

section \<open>Tests of the package, replayed\<close>

text \<open>
  The model computes what the tests of the package expect: two states of two authors for
  batch size 2; one state for each accepted shape of the argument (the test lists the
  pointer to a pointer among them, which is C4); no effect and no panic for the rejected
  shapes; the books of each author from one fetch; a rebuild after \<open>Reset\<close>.
\<close>

lemma TestInitHandles_Batching:
  "\<exists>t. InitHandles (NewEngine [WithBatchSize 2]) (emptyHeap :: (string, string) heap)
         (PtrSlice False ''*Author'' [Some 10, Some 20, Some 30, Some 40]) = Returns () t
       \<and> core t 10 = Some 0 \<and> core t 20 = Some 0 \<and> core t 30 = Some 1 \<and> core t 40 = Some 1
       \<and> models (loaderStates t 0) = [Some 10, Some 20]
       \<and> models (loaderStates t 1) = [Some 30, Some 40]
       \<and> nextState t = 2"
  by (simp add: InitHandles_def toPtrSlice_def bindPtrSlice_def batchRanges_def batchLoop.simps
        NewEngine_def WithBatchSize_def emptyHeap_def wrap64_def go_quot_def bindBatch_def
        subSlice_def)

lemma TestInitHandles_VariousInputs:
  "\<forall>m \<in> {ModelPtr ''*Author'' (Some 10),
           PtrSlice False ''*Author'' [Some 10],
           PtrSlice True ''*Author'' [Some 10],
           PtrTo (PtrSlice False ''*Author'' [Some 10]),
           PtrTo (PtrSlice True ''*Author'' [Some 10]),
           ValSlice False ''Author'' [10],
           ValSlice True ''Author'' [10],
           PtrTo (ValSlice False ''Author'' [10]),
           PtrTo (ValSlice True ''Author'' [10])}.
     \<exists>t. InitHandles (NewEngine []) (emptyHeap :: (string, string) heap) m = Returns () t
         \<and> core t 10 = Some 0
         \<and> models (loaderStates t 0) = [Some 10]
         \<and> modelsType (loaderStates t 0) = ''*Author''"
  by (simp add: InitHandles_def toPtrSlice_def bindPtrSlice_def batchRanges_def batchLoop.simps
        NewEngine_def emptyHeap_def wrap64_def go_quot_def bindBatch_def subSlice_def)

lemma TestInitHandles_Invalid_NoPanic:
  "\<forall>m \<in> {NilInterface, OtherValue, ModelPtr ''*Author'' None, NilPtr, OtherSlice 3,
           PtrTo (OtherSlice 2), PtrSlice True ''*Author'' [], ValSlice True ''Author'' [],
           PtrTo (PtrSlice True ''*Author'' []), PtrTo (ValSlice True ''Author'' []),
           PtrTo NilPtr, PtrTo (ModelPtr ''*Author'' None)}.
     InitHandles e s m = Returns () s"
  by (simp add: InitHandles_def toPtrSlice_def bindPtrSlice_def)

lemma TestMany_Basic:
  "\<exists>t. Many id authorsHeap booksByAuthor = Returns ([Some 11, Some 12], None) t
       \<and> Many id t (booksByAuthor\<lparr>Parent := Some 20\<rparr>) = Returns ([Some 21], None) t
       \<and> Many id t (booksByAuthor\<lparr>Parent := Some 30\<rparr>) = Returns ([], None) t
       \<and> One id t (booksByAuthor\<lparr>Parent := Some 20\<rparr>) = Returns (Some 21, None) t
       \<and> One id t (booksByAuthor\<lparr>Parent := Some 30\<rparr>) = Returns (None, None) t
       \<and> buildLog t = [(0, ''booksByAuthor'')]
       \<and> core t 11 = Some 1 \<and> core t 12 = Some 1 \<and> core t 21 = Some 1
       \<and> models (loaderStates t 1) = [Some 11, Some 12, Some 21]"
  by (simp add: Many_def One_def Resolve_def LoadOrStore_def onceDo_def queryFunc_def
        applyResolver_def grouped_def booksByAuthor_def bookAuthor_def authorsHeap_def
        emptyHeap_def emptyState_def List.map_filter_def
        InitHandles_def toPtrSlice_def bindPtrSlice_def batchRanges_def batchLoop.simps
        NewEngine_def wrap64_def go_quot_def bindBatch_def subSlice_def)

lemma TestHandleReset_ClearsCacheAndAllowsRebuild:
  "\<exists>t u v. resolveCalls authorsHeap [greet (Some 10), greet (Some 20)]
             = ([Done (''Alice!'', None), Done (''Bob!'', None)], t)
         \<and> buildLog t = [(0, ''greet'')]
         \<and> Reset t (Some 10) = Returns () u
         \<and> core u = core t
         \<and> resolveCalls u [greet (Some 10), greet (Some 20)]
             = ([Done (''Alice!'', None), Done (''Bob!'', None)], v)
         \<and> buildLog v = [(0, ''greet''), (0, ''greet'')]"
  by (simp add: Resolve_def LoadOrStore_def onceDo_def applyResolver_def Reset_def
        greet_def greetBuild_def authorName_def authorsHeap_def emptyHeap_def emptyState_def)

text \<open>
  The stores of the scenarios are stores the package produces: by \<open>InitHandles\<close> on three
  unbound authors, as a \<open>[]*Author\<close> and through a \<open>[]*Wrapper\<close>, then by a first \<open>Resolve\<close>,
  and by a first \<open>Many\<close> whose \<open>Fetch\<close> fails.
\<close>

lemma scenario_stores_reached:
  "InitHandles (NewEngine []) emptyHeap (PtrSlice False ''*Author'' [Some 10, Some 20, Some 30])
     = Returns () (authorsHeap :: (string, string) heap)
   \<and> InitHandles (NewEngine []) emptyHeap (PtrSlice False ''*Wrapper'' [Some 10, Some 20, Some 30])
     = Returns () (wrappersHeap :: (string, string) heap)
   \<and> Resolve authorsHeap (greet (Some 10)) = Returns (''Alice!'', None) greetedHeap
   \<and> Many id authorsHeap (booksByAuthor\<lparr>Fetch := (\<lambda>s keys. (([], Some (Upstream ''db down'')), s))\<rparr>)
     = Returns ([], Some (Upstream ''db down'')) failedHeap"
  by (simp add: InitHandles_def toPtrSlice_def bindPtrSlice_def batchRanges_def batchLoop.simps
        NewEngine_def emptyHeap_def emptyState_def wrap64_def go_quot_def bindBatch_def subSlice_def
        wrappersHeap_def authorsHeap_def fun_eq_iff
        Resolve_def LoadOrStore_def onceDo_def applyResolver_def greet_def greetBuild_def
        authorName_def greetedHeap_def publish_def beforeBuild_def
        Many_def queryFunc_def booksByAuthor_def failedHeap_def List.map_filter_def)

section \<open>The claims\<close>




text \<open>
  C2. \<open>Resolve\<close> of the file \<open>lode.go\<close> panics on a nil model: it has no \<open>isNil\<close> test, and
  \<open>spec.Model.lodeState()\<close> dereferences the nil pointer. The test \<open>TestResolve_NilModel\<close> of
  the package expects the zero result and a nil error, and that is what \<open>Resolve\<close>, \<open>Many\<close>
  and \<open>One\<close> with the \<open>isNil\<close> test return, with the store unchanged, whatever \<open>Build\<close> and
  \<open>Fetch\<close> are: neither is invoked.
\<close>

theorem nil_model_dereferenced_in_lode_go:
  "Resolve_lode_go s (spec\<lparr>Model := None\<rparr>) = Panics s
   \<and> Resolve s (spec\<lparr>Model := None\<rparr>) = Returns (ResultZero spec, None) s
   \<and> Many ord sm (args\<lparr>Parent := None\<rparr>) = Returns ([], None) sm
   \<and> One ord sm (args\<lparr>Parent := None\<rparr>) = Returns (RelationZero args, None) sm"
  by (simp add: Resolve_lode_go_def Resolve_def Many_def One_def)

text \<open>
  C3. With the batch size \<open>2 ^ 63 - 1\<close>, the largest \<open>int\<close>, binding two unbound models
  panics: the capacity \<open>(n + batchSize - 1) / batchSize\<close> that \<open>batchRanges\<close> computes wraps
  around to a negative number and \<open>make\<close> panics on it. No state is created, where one
  state holding both models is due. For the batch sizes whose capacity does not wrap
  around, lemma \<open>bindPtrSlice_partition\<close> gives the partition.
\<close>

theorem batch_size_overflow_panics:
  "batchRanges 2 (2 ^ 63 - 1) = Panic
   \<and> InitHandles (NewEngine [WithBatchSize (2 ^ 63 - 1)]) emptyHeap
       (PtrSlice False ''*Author'' [Some 10, Some 20]) = Panics emptyHeap"
  by (simp add: InitHandles_def toPtrSlice_def bindPtrSlice_def batchRanges_def NewEngine_def
      WithBatchSize_def emptyHeap_def wrap64_def go_quot_def)

text \<open>
  C4. A pointer to a pointer to a model is not bound. \<open>toPtrSlice\<close> asks for \<open>hasState\<close>
  only before it unwraps pointers; the loop then unwraps both levels down to the struct,
  which is not a slice, and \<open>InitHandles\<close> returns with the store unchanged. The bare
  pointer is bound as a singleton (lemma \<open>bare_reference_singleton\<close>), and the test
  \<open>single **T\<close> of the package expects the same of the pointer to it.
\<close>

theorem reference_to_reference_not_bound:
  "InitHandles e s (PtrTo (ModelPtr ty (Some a))) = Returns () s"
  by (simp add: InitHandles_def toPtrSlice_def)

text \<open>
  C5. \<open>InitHandles\<close> on models that are all bound to one and the same state returns the
  store unchanged: no handle is rewritten and no state is allocated. Binding proceeds
  exactly when some model is unbound or two models are bound to different states; then,
  for an engine whose batch size \<open>B\<close> is at least 1 with \<open>M + B - 1\<close> in the range of \<open>int\<close>,
  every model of the input ends bound to a state that this call allocated.
\<close>

theorem initHandles_idempotent:
  "(\<not> someUnbound (core s) (normalized m) \<and> \<not> twoDiffer (core s) (normalized m)
      \<longrightarrow> InitHandles e s m = Returns () s)
   \<and> ((someUnbound (core s) (normalized m) \<or> twoDiffer (core s) (normalized m))
       \<and> 1 \<le> batchSize (config e)
       \<and> int (length (normalized m)) + batchSize (config e) \<le> 2 ^ 63
      \<longrightarrow> (\<exists>t. InitHandles e s m = Returns () t
             \<and> (\<forall>a. Some a \<in> set (normalized m) \<longrightarrow>
                   (\<exists>st. core t a = Some st \<and> nextState s \<le> st \<and> st < nextState t))))"
proof (intro conjI impI)
  assume h: "\<not> someUnbound (core s) (normalized m) \<and> \<not> twoDiffer (core s) (normalized m)"
  show "InitHandles e s m = Returns () s"
  proof (cases "toPtrSlice m")
    case None
    then show ?thesis by (simp add: InitHandles_def)
  next
    case (Some ps)
    then have "\<not> (implements ps \<and> needScan (core s) None (elems ps))"
      using h by (auto simp: needScan_unbound_or_differ normalized_def)
    then have "bindPtrSlice e s ps = Returns () s" by (auto simp: bindPtrSlice_def)
    then show ?thesis using Some by (simp add: InitHandles_def)
  qed
next
  assume h: "(someUnbound (core s) (normalized m) \<or> twoDiffer (core s) (normalized m))
       \<and> 1 \<le> batchSize (config e)
       \<and> int (length (normalized m)) + batchSize (config e) \<le> 2 ^ 63"
  then have "normalized m \<noteq> []" by (auto simp: someUnbound_def twoDiffer_def)
  then obtain ps where ps: "toPtrSlice m = Some ps" "implements ps" "normalized m = elems ps"
    by (auto simp: normalized_def split: option.splits if_splits)
  have need: "needScan (core s) None (elems ps)"
    using h ps by (simp add: needScan_unbound_or_differ)
  define brs where "brs = chunks (length (elems ps)) (batchSize (config e))"
  define t where "t = boundHeap e ps brs s"
  have b: "1 \<le> batchSize (config e)" using h by simp
  have "bindPtrSlice e s ps = Returns () t"
    unfolding t_def brs_def using bindPtrSlice_bound [OF ps(2) need] h ps(3) by simp
  moreover have "m \<noteq> NilInterface" using ps(1) by (auto simp: toPtrSlice_def)
  moreover have "elems ps \<noteq> []" using \<open>normalized m \<noteq> []\<close> ps(3) by simp
  ultimately have ret: "InitHandles e s m = Returns () t"
    using ps(1) by (simp add: InitHandles_def)
  have fresh: "\<exists>st. core t a = Some st \<and> nextState s \<le> st \<and> st < nextState t"
    if a: "Some a \<in> set (elems ps)" for a
  proof -
    from a obtain j where j: "j < length (elems ps)" "elems ps ! j = Some a"
      by (auto simp: in_set_conv_nth)
    let ?B = "nat (batchSize (config e))"
    have k: "j div ?B < (length (elems ps) + ?B - 1) div ?B"
      and mem: "elems ps ! j \<in> set (take ?B (drop (j div ?B * ?B) (elems ps)))"
      using chunk_member [OF b j(1)] by simp_all
    have len: "length brs = (length (elems ps) + ?B - 1) div ?B"
      unfolding brs_def by (rule length_chunks [OF b])
    have "Some a \<in> set (subSlice (elems ps) (brs ! (j div ?B)))"
      unfolding brs_def using mem j(2) chunks_nth [OF b k] by simp
    moreover have "brs ! (j div ?B) \<in> set brs" using k len by simp
    ultimately have "\<exists>br \<in> set brs. Some a \<in> set (subSlice (elems ps) br)" by blast
    from bound_core_fresh [OF ps(2) this, of e s] show ?thesis
      by (simp add: t_def bound_nextState)
  qed
  show "\<exists>t. InitHandles e s m = Returns () t
             \<and> (\<forall>a. Some a \<in> set (normalized m) \<longrightarrow>
                   (\<exists>st. core t a = Some st \<and> nextState s \<le> st \<and> st < nextState t))"
    using ret fresh ps(3) by auto
qed

theorem initHandles_idempotent_witness:
  "InitHandles (NewEngine []) (authorsHeap :: (string, string) heap)
       (PtrSlice False ''*Author'' [Some 10, Some 20, Some 30])
     = Returns () authorsHeap
   \<and> (\<exists>t. InitHandles (NewEngine []) (authorsHeap :: (string, string) heap)
            (PtrSlice False ''*Author'' [Some 10, Some 40]) = Returns () t
          \<and> (\<exists>st. core t 10 = Some st \<and> 1 \<le> st \<and> st < nextState t)
          \<and> (\<exists>st. core t 40 = Some st \<and> 1 \<le> st \<and> st < nextState t))"
proof -
  have n1: "normalized (PtrSlice False ''*Author'' [Some 10, Some 20, Some 30]) = [Some 10, Some 20, Some 30]"
    and n2: "normalized (PtrSlice False ''*Author'' [Some 10, Some 40]) = [Some 10, Some 40]"
    by (simp_all add: normalized_def toPtrSlice_def)
  have c: "core (authorsHeap :: (string, string) heap) = (\<lambda>a. if a = 10 \<or> a = 20 \<or> a = 30 then Some 0 else None)"
    and ns: "nextState (authorsHeap :: (string, string) heap) = 1"
    by (simp_all add: authorsHeap_def emptyHeap_def)
  have u1: "\<not> someUnbound (core (authorsHeap :: (string, string) heap)) [Some 10, Some 20, Some 30]"
    and d1: "\<not> twoDiffer (core (authorsHeap :: (string, string) heap)) [Some 10, Some 20, Some 30]"
    by (auto simp: someUnbound_def twoDiffer_def c)
  have u2: "someUnbound (core (authorsHeap :: (string, string) heap)) [Some 10, Some 40]"
    unfolding someUnbound_def by (rule exI [of _ 40]) (simp add: c)
  have b: "batchSize (config (NewEngine [])) = 5000" by (simp add: NewEngine_def)
  from initHandles_idempotent
         [of "authorsHeap :: (string, string) heap"
             "PtrSlice False ''*Author'' [Some 10, Some 20, Some 30]" "NewEngine []"]
  have first: "InitHandles (NewEngine []) (authorsHeap :: (string, string) heap)
       (PtrSlice False ''*Author'' [Some 10, Some 20, Some 30]) = Returns () authorsHeap"
    using u1 d1 by (simp add: n1)
  from initHandles_idempotent
         [of "authorsHeap :: (string, string) heap"
             "PtrSlice False ''*Author'' [Some 10, Some 40]" "NewEngine []"]
  have second: "\<exists>t. InitHandles (NewEngine []) (authorsHeap :: (string, string) heap)
            (PtrSlice False ''*Author'' [Some 10, Some 40]) = Returns () t
          \<and> (\<forall>a. Some a \<in> set [Some 10, Some 40] \<longrightarrow>
                (\<exists>st. core t a = Some st \<and> 1 \<le> st \<and> st < nextState t))"
    using u2 by (simp add: n2 b ns)
  then obtain t where t: "InitHandles (NewEngine []) (authorsHeap :: (string, string) heap)
            (PtrSlice False ''*Author'' [Some 10, Some 40]) = Returns () t"
    and f: "\<forall>a. Some a \<in> set [Some 10, Some 40] \<longrightarrow>
                (\<exists>st. core t a = Some st \<and> 1 \<le> st \<and> st < nextState t)"
    by blast
  have "\<exists>st. core t 10 = Some st \<and> 1 \<le> st \<and> st < nextState t" using f by simp
  moreover have "\<exists>st. core t 40 = Some st \<and> 1 \<le> st \<and> st < nextState t" using f by simp
  ultimately show ?thesis using first t by blast
qed

text \<open>
  With the batch size 0 binding proceeds and then panics on the division in
  \<open>batchRanges\<close>: the unbound model is not rebound.
\<close>

theorem zero_batch_size_counterexample:
  "someUnbound (core emptyHeap) (normalized (PtrSlice False ''*Author'' [Some 10]))
   \<and> InitHandles (NewEngine [WithBatchSize 0]) emptyHeap
       (PtrSlice False ''*Author'' [Some 10]) = Panics emptyHeap"
  by (simp add: InitHandles_def toPtrSlice_def bindPtrSlice_def batchRanges_def NewEngine_def
      WithBatchSize_def emptyHeap_def someUnbound_def normalized_def)

text \<open>
  C6. For a parent that an engine with the batch size \<open>2 ^ 63 - 1\<close> has bound, \<open>Many\<close> and
  \<open>One\<close> panic when \<open>Fetch\<close> returns three relations, two of them with the join key of the
  parent: \<open>queryFunc\<close> re-binds the fetched relations with the engine of the state, and the
  capacity that \<open>batchRanges\<close> computes for them wraps around (the defect of C3). For the
  batch sizes whose capacity does not wrap around, lemma \<open>Many_returns_group\<close> gives the
  relations with the key of the parent, in the order of \<open>Fetch\<close>.
\<close>

theorem many_panics_on_capacity_overflow:
  "\<exists>s t. InitHandles (NewEngine [WithBatchSize (2 ^ 63 - 1)]) emptyHeap
            (PtrSlice False ''*Author'' [Some 10]) = Returns () s
        \<and> core s 10 = Some 0
        \<and> models (loaderStates s 0) = [Some 10]
        \<and> modelsType (loaderStates s 0) = ParentType booksByAuthor
        \<and> Parent booksByAuthor = Some 10
        \<and> ModelKey booksByAuthor (Some 10) = Some 10
        \<and> Fetch booksByAuthor s [10] = (([Some 11, Some 12, Some 21], None), s)
        \<and> map (RelationKey booksByAuthor) [Some 11, Some 12, Some 21] = [10, 10, 20]
        \<and> Many id s booksByAuthor = Panics t
        \<and> One id s booksByAuthor = Panics t"
  by (simp add: Many_def One_def Resolve_def LoadOrStore_def onceDo_def queryFunc_def
        applyResolver_def grouped_def booksByAuthor_def bookAuthor_def
        emptyHeap_def emptyState_def List.map_filter_def
        InitHandles_def toPtrSlice_def bindPtrSlice_def batchRanges_def batchLoop.simps
        NewEngine_def WithBatchSize_def wrap64_def go_quot_def bindBatch_def subSlice_def)

text \<open>
  C7. Once the entry of a state \<open>S\<close> and a key \<open>k\<close> has published an error, every \<open>Resolve\<close>
  call for \<open>k\<close> by a model bound to \<open>S\<close>, and every \<open>Many\<close> or \<open>One\<close> call whose parent has
  its join key present, returns that same error and the unchanged store: \<open>Build\<close> is not
  evaluated again. An error of \<open>Build\<close> is published and returned as it is, and so is an
  error of \<open>Fetch\<close>.
\<close>

theorem published_error_is_cached:
  "(core s a = Some S \<and> resolverEntries (loaderStates s S) k = Some pm
      \<and> ready (entriesAt s pm) = Some h \<and> err h = Some x
    \<longrightarrow> (Model c = Some a \<and> CacheKey c = k \<longrightarrow> Resolve s c = Returns (ResultZero c, Some x) s)
        \<and> (RelCacheKey args = k \<and> ModelKey args (Some a) \<noteq> None \<longrightarrow>
              Many ord s (args\<lparr>Parent := Some a\<rparr>) = Returns ([], Some x) s
              \<and> One ord s (args\<lparr>Parent := Some a\<rparr>) = Returns (RelationZero args, Some x) s))
   \<and> (Model c' = Some a' \<and> core sa a' = Some S'
      \<and> resolverEntries (loaderStates sa S') (CacheKey c') = None
      \<and> modelsType (loaderStates sa S') = ModelType c'
      \<and> Build c' (beforeBuild sa S' (CacheKey c')) (models (loaderStates sa S'))
          = Returns (fn, Some x') sb
    \<longrightarrow> Resolve sa c' =
          Returns (ResultZero c', Some x')
            (publish sb (nextEntry sa)
               \<lparr>resolver = Some (ResolverFunc (ModelType c') (ResultType c') fn), err = Some x'\<rparr>))
   \<and> (Fetch args' sq (ord' (remdups (List.map_filter (ModelKey args') ms))) = ((rels, Some x''), sf)
    \<longrightarrow> queryFunc ord' args' S'' sq ms = Returns (None, Some x'') sf)"
proof (intro conjI impI)
  assume p: "core s a = Some S \<and> resolverEntries (loaderStates s S) k = Some pm
      \<and> ready (entriesAt s pm) = Some h \<and> err h = Some x"
  {
    assume "Model c = Some a \<and> CacheKey c = k"
    then show "Resolve s c = Returns (ResultZero c, Some x) s"
      using Resolve_cached [of c a s S pm h] p by (simp add: applyResolver_def)
  }
  {
    assume q: "RelCacheKey args = k \<and> ModelKey args (Some a) \<noteq> None"
    then show m: "Many ord s (args\<lparr>Parent := Some a\<rparr>) = Returns ([], Some x) s"
      using Many_cached [of s a S args pm h ord] p by (simp add: applyResolver_def)
    show "One ord s (args\<lparr>Parent := Some a\<rparr>) = Returns (RelationZero args, Some x) s"
      by (simp add: One_def m)
  }
next
  assume "Model c' = Some a' \<and> core sa a' = Some S'
      \<and> resolverEntries (loaderStates sa S') (CacheKey c') = None
      \<and> modelsType (loaderStates sa S') = ModelType c'
      \<and> Build c' (beforeBuild sa S' (CacheKey c')) (models (loaderStates sa S'))
          = Returns (fn, Some x') sb"
  then show "Resolve sa c' =
          Returns (ResultZero c', Some x')
            (publish sb (nextEntry sa)
               \<lparr>resolver = Some (ResolverFunc (ModelType c') (ResultType c') fn), err = Some x'\<rparr>)"
    using Resolve_builds [of c' a' sa S' fn "Some x'" sb] by (simp add: applyResolver_def)
next
  assume "Fetch args' sq (ord' (remdups (List.map_filter (ModelKey args') ms))) = ((rels, Some x''), sf)"
  then show "queryFunc ord' args' S'' sq ms = Returns (None, Some x'') sf"
    by (simp add: queryFunc_def)
qed

theorem published_error_is_cached_witness:
  "Resolve failedHeap (relationSpecResolve id (booksByAuthor\<lparr>Parent := Some 20\<rparr>) 0)
     = Returns ([], Some (Upstream ''db down'')) failedHeap
   \<and> Many id failedHeap (booksByAuthor\<lparr>Parent := Some 20\<rparr>)
     = Returns ([], Some (Upstream ''db down'')) failedHeap
   \<and> One id failedHeap (booksByAuthor\<lparr>Parent := Some 20\<rparr>)
     = Returns (None, Some (Upstream ''db down'')) failedHeap
   \<and> Resolve authorsHeap
       (relationSpecResolve id
          (booksByAuthor\<lparr>Fetch := (\<lambda>s keys. (([], Some (Upstream ''db down'')), s))\<rparr>) 0)
     = Returns ([], Some (Upstream ''db down'')) failedHeap"
proof -
  let ?args = "booksByAuthor\<lparr>Fetch := (\<lambda>s keys. (([], Some (Upstream ''db down'')), s))\<rparr>"
  let ?h = "\<lparr>resolver = Some (ResolverFunc ''*Author'' ''[]*Book'' None),
             err = Some (Upstream ''db down'')\<rparr> :: (mref list, string) resolverHolder"
  let ?b = "beforeBuild authorsHeap 0 ''booksByAuthor'' :: (mref list, string) heap"
  note th = published_error_is_cached
    [where s = failedHeap and a = 20 and S = 0 and k = "''booksByAuthor''" and pm = 0
       and h = ?h and x = "Upstream ''db down''"
       and c = "relationSpecResolve id (booksByAuthor\<lparr>Parent := Some 20\<rparr>) 0"
       and args = booksByAuthor and ord = id
       and c' = "relationSpecResolve id ?args 0" and a' = 10 and sa = authorsHeap and S' = 0
       and fn = None and x' = "Upstream ''db down''" and sb = ?b
       and args' = ?args and sq = ?b and ord' = id and ms = "[Some 10, Some 20, Some 30]"
       and rels = "[]" and x'' = "Upstream ''db down''" and sf = ?b and S'' = 0]
  have f: "core failedHeap 20 = Some 0"
    "resolverEntries (loaderStates failedHeap 0) ''booksByAuthor'' = Some 0"
    "ready (entriesAt failedHeap 0) = Some ?h"
    by (simp_all add: failedHeap_def publish_def beforeBuild_def LoadOrStore_def authorsHeap_def
          emptyHeap_def emptyState_def)
  have g: "core (authorsHeap :: (mref list, string) heap) 10 = Some 0"
    "resolverEntries (loaderStates (authorsHeap :: (mref list, string) heap) 0) ''booksByAuthor'' = None"
    "modelsType (loaderStates (authorsHeap :: (mref list, string) heap) 0) = ''*Author''"
    "models (loaderStates (authorsHeap :: (mref list, string) heap) 0) = [Some 10, Some 20, Some 30]"
    "nextEntry (authorsHeap :: (mref list, string) heap) = 0"
    by (simp_all add: authorsHeap_def emptyHeap_def)
  have a: "RelCacheKey booksByAuthor = ''booksByAuthor''" "ModelKey booksByAuthor (Some 20) \<noteq> None"
    "RelationZero booksByAuthor = None" "Parent booksByAuthor = Some 10"
    "ParentType booksByAuthor = ''*Author''" "RelationType booksByAuthor = ''*Book''"
    by (simp_all add: booksByAuthor_def)
  have q: "queryFunc id ?args 0 ?b [Some 10, Some 20, Some 30]
             = Returns (None, Some (Upstream ''db down'')) ?b"
    using th by (simp add: booksByAuthor_def)
  have c1: "Resolve failedHeap (relationSpecResolve id (booksByAuthor\<lparr>Parent := Some 20\<rparr>) 0)
     = Returns ([], Some (Upstream ''db down'')) failedHeap"
    using th f a by (simp add: relationSpecResolve_sel)
  have c2: "Many id failedHeap (booksByAuthor\<lparr>Parent := Some 20\<rparr>)
     = Returns ([], Some (Upstream ''db down'')) failedHeap"
   and c3: "One id failedHeap (booksByAuthor\<lparr>Parent := Some 20\<rparr>)
     = Returns (None, Some (Upstream ''db down'')) failedHeap"
    using th f a by simp_all
  have c4: "Resolve authorsHeap (relationSpecResolve id ?args 0)
     = Returns ([], Some (Upstream ''db down'')) failedHeap"
    using th g a q by (simp add: relationSpecResolve_sel failedHeap_def)
  show ?thesis using c1 c2 c3 c4 by simp
qed

text \<open>
  A \<open>Many\<close> or \<open>One\<close> call for a parent whose join key is absent returns the empty result
  and no error, also when the entry of its state and key holds an error.
\<close>

theorem absent_key_hides_cached_error:
  "core failedHeap 10 = Some 0
   \<and> resolverEntries (loaderStates failedHeap 0) ''booksByAuthor'' = Some 0
   \<and> ready (entriesAt failedHeap 0)
        = Some \<lparr>resolver = Some (ResolverFunc ''*Author'' ''[]*Book'' None),
                 err = Some (Upstream ''db down'')\<rparr>
   \<and> Many id failedHeap (booksByAuthor\<lparr>ModelKey := (\<lambda>m. None)\<rparr>) = Returns ([], None) failedHeap
   \<and> One id failedHeap (booksByAuthor\<lparr>ModelKey := (\<lambda>m. None)\<rparr>) = Returns (None, None) failedHeap"
  by (simp add: failedHeap_def publish_def beforeBuild_def LoadOrStore_def authorsHeap_def
        emptyHeap_def emptyState_def booksByAuthor_def Many_def One_def)



text \<open>
  C9. If the entry of a state and a key holds a resolver built with the result type \<open>rt\<close>
  and no error, a \<open>Resolve\<close> call for that key with another result type returns the error
  \<open>ErrIncompatible\<close> for the key and the unchanged store: the stored resolver is not
  applied and \<open>Build\<close> is not evaluated.
\<close>

theorem incompatible_result_type:
  assumes "Model c = Some a" and "core s a = Some S"
    and "resolverEntries (loaderStates s S) (CacheKey c) = Some pm"
    and "ready (entriesAt s pm) = Some h"
    and "err h = None"
    and "resolver h = Some (ResolverFunc mty rt fn)"
    and "ResultType c \<noteq> rt"
  shows "Resolve s c = Returns (ResultZero c, Some (ErrIncompatible (CacheKey c))) s"
  using Resolve_cached [OF assms(1-4)] assms(5-7) by (simp add: applyResolver_def)

theorem incompatible_result_type_witness:
  "Resolve greetedHeap ((greet (Some 20))\<lparr>ResultType := ''int''\<rparr>)
     = Returns ([], Some (ErrIncompatible ''greet'')) greetedHeap"
  using incompatible_result_type
    [where c = "(greet (Some 20))\<lparr>ResultType := ''int''\<rparr>" and a = 20 and s = greetedHeap and S = 0
       and pm = 0 and mty = "''*Author''" and rt = "''string''"
       and fn = "Some (\<lambda>a. if a \<in> set [Some 10, Some 20, Some 30] then authorName a @ ''!'' else [])"
       and h = "\<lparr>resolver = Some (ResolverFunc ''*Author'' ''string''
                          (Some (\<lambda>a. if a \<in> set [Some 10, Some 20, Some 30]
                                      then authorName a @ ''!'' else []))),
                  err = None\<rparr>"]
  by (simp add: greetedHeap_def publish_def beforeBuild_def LoadOrStore_def authorsHeap_def
        emptyHeap_def emptyState_def greet_def)

text \<open>
  C10. For a non-nil parent whose \<open>ModelKey\<close> reports the join key as not present,
  \<open>Many\<close> and \<open>One\<close> return the empty result and no error, bound or not: the check of
  the key comes before the check of the state. So an unbound parent gets the error
  \<open>errNoLoader\<close> exactly when its join key is present.
\<close>

theorem absent_key_before_bound_check:
  assumes "Parent args = Some a"
  shows "(ModelKey args (Some a) = None \<longrightarrow>
            Many ord s args = Returns ([], None) s
            \<and> One ord s args = Returns (RelationZero args, None) s)
       \<and> (core s a = None \<longrightarrow>
            (Many ord s args = Returns ([], Some ErrNoLoader) s) = (ModelKey args (Some a) \<noteq> None)
            \<and> (One ord s args = Returns (RelationZero args, Some ErrNoLoader) s)
                = (ModelKey args (Some a) \<noteq> None))"
  using assms by (cases "ModelKey args (Some a)") (simp_all add: Many_def One_def)

theorem absent_key_before_bound_check_witness:
  "Many id emptyHeap (booksByAuthor\<lparr>Parent := Some 40, ModelKey := (\<lambda>m. None)\<rparr>)
     = Returns ([], None) emptyHeap
   \<and> One id emptyHeap (booksByAuthor\<lparr>Parent := Some 40, ModelKey := (\<lambda>m. None)\<rparr>)
     = Returns (None, None) emptyHeap
   \<and> Many id emptyHeap (booksByAuthor\<lparr>Parent := Some 40\<rparr>)
     = Returns ([], Some ErrNoLoader) emptyHeap"
  using absent_key_before_bound_check
          [of "booksByAuthor\<lparr>Parent := Some 40, ModelKey := (\<lambda>m. None)\<rparr>" 40 id emptyHeap]
        absent_key_before_bound_check [of "booksByAuthor\<lparr>Parent := Some 40\<rparr>" 40 id emptyHeap]
  by (simp add: booksByAuthor_def emptyHeap_def)

end
